theory Spec2Isabelle
  imports
    Complex_Main
    "HOL-Library.AList"
    "HOL-Library.Char_ord"
    "HOL-Library.List_Lexorder"
    "HOL-Library.Product_Lexorder"
begin

section \<open>Python strings and numbers\<close>

text \<open>
  A Python \<open>str\<close> is modelled as a \<open>string\<close> holding its UTF-8 bytes. Every operation of
  \<open>nutils/SI.py\<close> on strings strips, splits or searches for ASCII characters only,
  concatenates, or compares lexicographically; on these operations the UTF-8 bytes behave as
  the code points do (a byte of a multi-byte sequence is never an ASCII character, and the
  byte order of UTF-8 is the code point order). A \<open>fractions.Fraction\<close> is a \<open>rat\<close>:
  \<open>quotient_of\<close> gives its \<open>numerator\<close> and its (positive) \<open>denominator\<close> in lowest terms.
\<close>

definition lstrip :: "string \<Rightarrow> string \<Rightarrow> string" where
  "lstrip chars s = dropWhile (\<lambda>c. c \<in> set chars) s"

definition rstrip :: "string \<Rightarrow> string \<Rightarrow> string" where
  "rstrip chars s = rev (dropWhile (\<lambda>c. c \<in> set chars) (rev s))"

definition digit_chars :: string where
  "digit_chars = ''0123456789''"

fun str_nat :: "nat \<Rightarrow> string" where
  "str_nat n = (if n < 10 then [digit_chars ! n]
                else str_nat (n div 10) @ [digit_chars ! (n mod 10)])"

declare str_nat.simps [simp del]

definition str_int :: "int \<Rightarrow> string" where
  "str_int i = (if i < 0 then ''-'' @ str_nat (nat (- i)) else str_nat (nat i))"

definition numerator :: "rat \<Rightarrow> int" where
  "numerator q = fst (quotient_of q)"

definition denominator :: "rat \<Rightarrow> int" where
  "denominator q = snd (quotient_of q)"

text \<open>
  \<open>sorted(xs, key=key, reverse=True)\<close>: Python reverses the list, sorts it stably by
  ascending key and reverses the result.
\<close>

definition sorted_reverse :: "('a \<Rightarrow> 'k::linorder) \<Rightarrow> 'a list \<Rightarrow> 'a list" where
  "sorted_reverse key xs = rev (sort_key key (rev xs))"

section \<open>The dimension registry\<close>

text \<open>
  A dict from base symbol to power is an association list in insertion order; a well-formed
  dict has no key twice. A class made by \<open>Dimension.from_powers\<close> is a record of its
  identity (the number of classes made before it), its \<open>__name__\<close> and its \<open>__powers\<close>.
  \<open>Dimension.__cache\<close> is an association list from canonical name to class, passed in and
  returned by every operation that reads or extends it.
\<close>

type_synonym powers = "(string \<times> rat) list"

record dimension =
  cls_id :: nat
  cls_name :: string
  cls_powers :: powers

type_synonym cache = "(string \<times> dimension) list"

definition is_dict :: "('k \<times> 'v) list \<Rightarrow> bool" where
  "is_dict kvs = distinct (map fst kvs)"

definition token :: "string \<times> rat \<Rightarrow> string" where
  "token item = (case item of (base, pw) \<Rightarrow>
     (if pw > 0 then ''*'' else ''/'') @ base
     @ (if \<bar>numerator pw\<bar> \<noteq> 1 then str_int \<bar>numerator pw\<bar> else '''')
     @ (if \<bar>denominator pw\<bar> \<noteq> 1 then ''_'' @ str_int \<bar>denominator pw\<bar> else ''''))"

definition nonzero_powers :: "powers \<Rightarrow> powers" where
  "nonzero_powers arg = filter (\<lambda>(base, pw). pw \<noteq> 0) arg"

definition canonical_name :: "powers \<Rightarrow> string" where
  "canonical_name powers =
     lstrip ''*'' (concat (map token (sorted_reverse (\<lambda>item. (snd item, fst item)) powers)))"

definition from_powers :: "cache \<Rightarrow> powers \<Rightarrow> dimension \<times> cache" where
  "from_powers cache arg =
     (let powers = nonzero_powers arg;
          name = canonical_name powers
      in case map_of cache name of
           Some cls \<Rightarrow> (cls, cache)
         | None \<Rightarrow>
             (let cls = \<lparr>cls_id = length cache, cls_name = ''['' @ name @ '']'',
                         cls_powers = powers\<rparr>
              in (cls, AList.update name cls cache)))"

section \<open>Errors, host values and objects\<close>

text \<open>
  Every exception of the module is a value of \<open>error\<close>; a function that can raise returns
  \<open>error + 'a\<close>. The specification's \<open>ConfigurationError\<close> and \<open>ParseError\<close> are
  \<open>ValueError\<close> in the code, its \<open>TypeMismatchError\<close> is \<open>TypeError\<close> and its \<open>LookupError\<close>
  is \<open>AttributeError\<close>.
\<close>

datatype error =
    ValueError | TypeError | AttributeError | ZeroDivisionError | AssertionError
  | StopIteration | IndexError | RecursionError | OverflowError | NameError

text \<open>
  The numeric payloads (floats, arrays) belong to the host library and are values of a type
  \<open>'v\<close>; what the module asks of the host is a record of functions: \<open>float\<close> of a literal
  already checked to be well formed, \<open>*\<close>, \<open>/\<close> and \<open>**\<close> on payloads, the conversion of a
  plain exponent to a \<open>Fraction\<close> (by \<open>__index__\<close> or by the \<open>Fraction\<close> constructor), the
  name of the Python type of a payload, \<open>str\<close> and \<open>__format__\<close>.
\<close>

record 'v host =
  h_float :: "string \<Rightarrow> 'v"
  h_mul :: "'v \<Rightarrow> 'v \<Rightarrow> 'v"
  h_truediv :: "'v \<Rightarrow> 'v \<Rightarrow> error + 'v"
  h_pow :: "'v \<Rightarrow> rat \<Rightarrow> error + 'v"
  h_fraction :: "'v \<Rightarrow> error + rat"
  h_type :: "'v \<Rightarrow> string"
  h_str :: "'v \<Rightarrow> string"
  h_format :: "'v \<Rightarrow> string \<Rightarrow> error + string"

text \<open>
  An instance of a class made by \<open>from_powers\<close>: its type, its \<open>__value\<close> and the attribute
  \<open>_parsed_from\<close>, which \<open>parse\<close> sets.
\<close>

record 'v quantity =
  q_type :: dimension
  q_value :: 'v
  q_parsed_from :: "string option"

datatype 'v obj =
    Raw 'v
  | Frac rat
  | Str string
  | Seq "'v obj list"
  | Qty "'v quantity"
  | NotImplemented
  | Other string

text \<open>
  \<open>Other t\<close> is an object of any other type \<open>t\<close>, such as a bound method of \<open>dict\<close>.
  \<open>type(x)\<close> is a class made by \<open>from_powers\<close> or another type, known by its name.
\<close>

datatype pytype = Dim dimension | Plain string

definition type_of :: "'v host \<Rightarrow> 'v obj \<Rightarrow> pytype" where
  "type_of h x = (case x of
       Raw v \<Rightarrow> Plain (h_type h v)
     | Frac r \<Rightarrow> Plain ''Fraction''
     | Str s \<Rightarrow> Plain ''str''
     | Seq xs \<Rightarrow> Plain ''list''
     | Qty q \<Rightarrow> Dim (q_type q)
     | NotImplemented \<Rightarrow> Plain ''NotImplementedType''
     | Other t \<Rightarrow> Plain t)"

text \<open>\<open>a != b\<close> on types compares identities.\<close>

definition type_ne :: "pytype \<Rightarrow> pytype \<Rightarrow> bool" where
  "type_ne a b = (case (a, b) of
       (Dim c, Dim d) \<Rightarrow> cls_id c \<noteq> cls_id d
     | (Plain s, Plain t) \<Rightarrow> s \<noteq> t
     | _ \<Rightarrow> True)"

section \<open>The dimension algebra\<close>

definition dict_get :: "powers \<Rightarrow> string \<Rightarrow> rat" where
  "dict_get d base = (case map_of d base of Some pw \<Rightarrow> pw | None \<Rightarrow> 0)"

text \<open>
  \<open>Dimension._binop\<close>. The code iterates over \<open>set(a) | set(b)\<close>, in an order Python does
  not fix; the keys are taken here in the order of \<open>a\<close>, then of \<open>b\<close>. Nothing observes the
  order: \<open>from_powers\<close> sorts the entries to build the name.
\<close>

definition binop :: "cache \<Rightarrow> (rat \<Rightarrow> rat \<Rightarrow> rat) \<Rightarrow> powers \<Rightarrow> powers \<Rightarrow> dimension \<times> cache" where
  "binop cache op a b =
     from_powers cache
       (map (\<lambda>base. (base, op (dict_get a base) (dict_get b base)))
            (remdups (map fst a @ map fst b)))"

text \<open>\<open>Dimension.__pow__\<close>, with the exponent already converted to a \<open>Fraction\<close>.\<close>

definition dim_pow :: "cache \<Rightarrow> dimension \<Rightarrow> rat \<Rightarrow> dimension \<times> cache" where
  "dim_pow cache cls other =
     from_powers cache (map (\<lambda>(base, pw). (base, pw * other)) (cls_powers cls))"

text \<open>
  \<open>type(a) * type(b)\<close> and \<open>type(a) / type(b)\<close>: \<open>Dimension.__mul__\<close>, \<open>__rmul__\<close>,
  \<open>__truediv__\<close> and \<open>__rtruediv__\<close>; two types that are no dimensions have no such operator.
\<close>

definition dim_mul :: "cache \<Rightarrow> pytype \<Rightarrow> pytype \<Rightarrow> (error + pytype) \<times> cache" where
  "dim_mul cache a b = (case (a, b) of
       (Dim cls, Dim other) \<Rightarrow>
         (case binop cache (+) (cls_powers cls) (cls_powers other) of
            (d, cache') \<Rightarrow> (Inr (Dim d), cache'))
     | (Dim cls, Plain t) \<Rightarrow> (Inr (Dim cls), cache)
     | (Plain t, Dim cls) \<Rightarrow> (Inr (Dim cls), cache)
     | (Plain t, Plain u) \<Rightarrow> (Inl TypeError, cache))"

definition dim_truediv :: "cache \<Rightarrow> pytype \<Rightarrow> pytype \<Rightarrow> (error + pytype) \<times> cache" where
  "dim_truediv cache a b = (case (a, b) of
       (Dim cls, Dim other) \<Rightarrow>
         (case binop cache (-) (cls_powers cls) (cls_powers other) of
            (d, cache') \<Rightarrow> (Inr (Dim d), cache'))
     | (Dim cls, Plain t) \<Rightarrow> (Inr (Dim cls), cache)
     | (Plain t, Dim cls) \<Rightarrow>
         (case dim_pow cache cls (- 1) of (d, cache') \<Rightarrow> (Inr (Dim d), cache'))
     | (Plain t, Plain u) \<Rightarrow> (Inl TypeError, cache))"

text \<open>\<open>Dimension.__wrap__\<close>; a new instance has no \<open>_parsed_from\<close>.\<close>

definition wrap :: "dimension \<Rightarrow> 'v \<Rightarrow> 'v obj" where
  "wrap cls v =
     (if cls_powers cls = [] then Raw v
      else Qty \<lparr>q_type = cls, q_value = v, q_parsed_from = None\<rparr>)"

section \<open>The operator dispatcher\<close>

definition arg_type :: "'v host \<Rightarrow> 'v obj list \<Rightarrow> nat \<Rightarrow> error + pytype" where
  "arg_type h args i = (if i < length args then Inr (type_of h (args ! i)) else Inl IndexError)"

text \<open>The exponent of \<open>Dimension.__pow__\<close> as a \<open>Fraction\<close>.\<close>

definition as_fraction :: "'v host \<Rightarrow> 'v obj \<Rightarrow> error + rat" where
  "as_fraction h x = (case x of
       Frac r \<Rightarrow> Inr r
     | Raw v \<Rightarrow> h_fraction h v
     | _ \<Rightarrow> Inl TypeError)"

text \<open>\<open>arg.__value if isinstance(arg, Quantity) else arg\<close>.\<close>

definition unwrap :: "'v obj \<Rightarrow> 'v obj" where
  "unwrap x = (case x of Qty q \<Rightarrow> Raw (q_value q) | _ \<Rightarrow> x)"

text \<open>\<open>q.__value\<close> in the stacking branch: only an instance of \<open>Quantity\<close> has the attribute.\<close>

fun stack_values :: "'v obj list \<Rightarrow> error + 'v obj list" where
  "stack_values [] = Inr []"
| "stack_values (x # xs) = (case x of
       Qty q \<Rightarrow> (case stack_values xs of Inl e \<Rightarrow> Inl e | Inr vs \<Rightarrow> Inr (Raw (q_value q) # vs))
     | _ \<Rightarrow> Inl AttributeError)"

text \<open>
  The \<open>if\<close>/\<open>elif\<close> chain of \<open>Quantity._dispatch\<close>, after the string arguments have been
  parsed: the error raised, or \<open>None\<close> where the code returns \<open>NotImplemented\<close>, or the type
  \<open>Dim\<close> with the arguments to unwrap. A sequence to stack is a \<open>Seq\<close>; indexing into an
  opaque host value is not modelled and is a \<open>TypeError\<close> here.
\<close>

definition result_type ::
  "'v host \<Rightarrow> cache \<Rightarrow> string \<Rightarrow> 'v obj list \<Rightarrow> (error + (pytype \<times> 'v obj list) option) \<times> cache" where
  "result_type h cache name args =
    (if name \<in> set [''add'', ''sub'', ''subtract'', ''hypot''] then
       (case arg_type h args 0 of Inl e \<Rightarrow> (Inl e, cache) | Inr D \<Rightarrow>
        (case arg_type h args 1 of Inl e \<Rightarrow> (Inl e, cache) | Inr t \<Rightarrow>
           if type_ne t D then (Inl TypeError, cache) else (Inr (Some (D, args)), cache)))
     else if name \<in> set [''mul'', ''multiply'', ''matmul''] then
       (case arg_type h args 0 of Inl e \<Rightarrow> (Inl e, cache) | Inr t0 \<Rightarrow>
        (case arg_type h args 1 of Inl e \<Rightarrow> (Inl e, cache) | Inr t1 \<Rightarrow>
        (case dim_mul cache t0 t1 of
           (Inl e, cache') \<Rightarrow> (Inl e, cache')
         | (Inr D, cache') \<Rightarrow> (Inr (Some (D, args)), cache'))))
     else if name \<in> set [''truediv'', ''true_divide'', ''divide''] then
       (case arg_type h args 0 of Inl e \<Rightarrow> (Inl e, cache) | Inr t0 \<Rightarrow>
        (case arg_type h args 1 of Inl e \<Rightarrow> (Inl e, cache) | Inr t1 \<Rightarrow>
        (case dim_truediv cache t0 t1 of
           (Inl e, cache') \<Rightarrow> (Inl e, cache')
         | (Inr D, cache') \<Rightarrow> (Inr (Some (D, args)), cache'))))
     else if name \<in> set [''neg'', ''negative'', ''pos'', ''positive'', ''abs'', ''absolute'',
         ''sum'', ''mean'', ''broadcast_to'', ''transpose'', ''trace'', ''take'', ''ptp'',
         ''getitem'', ''amax'', ''amin'', ''max'', ''min''] then
       (case arg_type h args 0 of Inl e \<Rightarrow> (Inl e, cache) | Inr D \<Rightarrow>
          (Inr (Some (D, args)), cache))
     else if name = ''sqrt'' then
       (case arg_type h args 0 of Inl e \<Rightarrow> (Inl e, cache)
        | Inr (Plain t) \<Rightarrow> (Inl TypeError, cache)
        | Inr (Dim cls) \<Rightarrow>
            (case dim_pow cache cls (Fract 1 2) of
               (d, cache') \<Rightarrow> (Inr (Some (Dim d, args)), cache')))
     else if name = ''setitem'' then
       (case arg_type h args 0 of Inl e \<Rightarrow> (Inl e, cache) | Inr D \<Rightarrow>
        (case arg_type h args 2 of Inl e \<Rightarrow> (Inl e, cache) | Inr t \<Rightarrow>
           if type_ne t D then (Inl TypeError, cache) else (Inr (Some (D, args)), cache)))
     else if name \<in> set [''pow'', ''power''] then
       (case arg_type h args 0 of Inl e \<Rightarrow> (Inl e, cache) | Inr t0 \<Rightarrow>
          if length args < 2 then (Inl IndexError, cache)
          else (case t0 of
             Plain t \<Rightarrow>
               (case args ! 1 of Qty q \<Rightarrow> (Inl RecursionError, cache)
                | _ \<Rightarrow> (Inl TypeError, cache))
           | Dim cls \<Rightarrow>
               (case as_fraction h (args ! 1) of
                  Inl e \<Rightarrow> (Inl e, cache)
                | Inr r \<Rightarrow>
                    (case dim_pow cache cls r of
                       (d, cache') \<Rightarrow> (Inr (Some (Dim d, args)), cache')))))
     else if name \<in> set [''lt'', ''le'', ''eq'', ''ne'', ''gt'', ''ge'', ''equal'', ''not_equal'',
         ''less'', ''less_equal'', ''greater'', ''greater_equal'', ''isfinite'', ''isnan''] then
       (if list_ex (\<lambda>q. type_ne (type_of h q) (type_of h (hd args))) (tl args)
        then (Inl TypeError, cache)
        else (case from_powers cache [] of
                (d, cache') \<Rightarrow> (Inr (Some (Dim d, args)), cache')))
     else if name \<in> set [''stack'', ''concatenate''] then
       (case args of
          [Seq stack_args] \<Rightarrow>
            (case stack_args of
               [] \<Rightarrow> (Inl IndexError, cache)
             | q0 # rest \<Rightarrow>
                 if list_ex (\<lambda>q. type_ne (type_of h q) (type_of h q0)) rest
                 then (Inl TypeError, cache)
                 else (case stack_values stack_args of
                         Inl e \<Rightarrow> (Inl e, cache)
                       | Inr vs \<Rightarrow> (Inr (Some (type_of h q0, [Seq vs])), cache)))
        | [x] \<Rightarrow> (Inl TypeError, cache)
        | _ \<Rightarrow> (Inl ValueError, cache))
     else if name \<in> set [''shape'', ''ndim'', ''size''] then
       (case from_powers cache [] of
          (d, cache') \<Rightarrow> (Inr (Some (Dim d, args)), cache'))
     else (Inr None, cache))"

text \<open>
  \<open>Quantity._dispatch\<close> on arguments that hold no string: the assertion on \<open>Dim\<close>, the call
  of the host operation \<open>op\<close> on the unwrapped arguments, and \<open>Dim.__wrap__\<close> of its result.
\<close>

definition dispatch_core ::
  "'v host \<Rightarrow> cache \<Rightarrow> string \<Rightarrow> ('v obj list \<Rightarrow> error + 'v) \<Rightarrow> 'v obj list
     \<Rightarrow> (error + 'v obj) \<times> cache" where
  "dispatch_core h cache name op args =
     (case result_type h cache name args of
        (Inl e, cache') \<Rightarrow> (Inl e, cache')
      | (Inr None, cache') \<Rightarrow> (Inr NotImplemented, cache')
      | (Inr (Some (Plain t, args')), cache') \<Rightarrow> (Inl AssertionError, cache')
      | (Inr (Some (Dim cls, args')), cache') \<Rightarrow>
          (case op (map unwrap args') of
             Inl e \<Rightarrow> (Inl e, cache')
           | Inr r \<Rightarrow> (Inr (wrap cls r), cache')))"

section \<open>The expression parser\<close>

text \<open>\<open>str.split\<close> on a one-character separator and \<open>str.partition\<close>.\<close>

fun split_on :: "char \<Rightarrow> string \<Rightarrow> string list" where
  "split_on c [] = [[]]"
| "split_on c (x # xs) =
     (if x = c then [] # split_on c xs
      else (case split_on c xs of p # ps \<Rightarrow> (x # p) # ps | [] \<Rightarrow> [[x]]))"

definition partition_on :: "char \<Rightarrow> string \<Rightarrow> string \<times> string \<times> string" where
  "partition_on c s =
     (case dropWhile (\<lambda>x. x \<noteq> c) s of
        [] \<Rightarrow> (s, [], [])
      | x # after \<Rightarrow> (takeWhile (\<lambda>x. x \<noteq> c) s, [c], after))"

text \<open>
  \<open>int(s)\<close> on a string of digits and underscores: Python accepts groups of digits joined by
  single underscores. (The interpreter's limit on the number of digits is not modelled.)
\<close>

definition is_digit :: "char \<Rightarrow> bool" where
  "is_digit c = (c \<in> set digit_chars)"

fun int_literal_ok :: "string \<Rightarrow> bool" where
  "int_literal_ok [] = False"
| "int_literal_ok [c] = is_digit c"
| "int_literal_ok (c # d # s) =
     (is_digit c \<and> (if d = CHR ''_'' then int_literal_ok s else int_literal_ok (d # s)))"

definition digit_value :: "char \<Rightarrow> nat" where
  "digit_value c = of_char c - 48"

definition nat_of_digits :: "string \<Rightarrow> nat" where
  "nat_of_digits s = foldl (\<lambda>a c. 10 * a + digit_value c) 0 s"

definition py_int :: "string \<Rightarrow> error + int" where
  "py_int s = (if int_literal_ok s then Inr (int (nat_of_digits (filter is_digit s)))
               else Inl ValueError)"

text \<open>\<open>int(s or 1)\<close>.\<close>

definition py_int_or_1 :: "string \<Rightarrow> error + int" where
  "py_int_or_1 s = (if s = [] then Inr 1 else py_int s)"

text \<open>The body of the inner loop of \<open>_split_factors\<close> for a nonempty \<open>factor\<close>.\<close>

definition factor_of :: "string \<Rightarrow> error + string \<times> rat" where
  "factor_of factor =
     (let base = rstrip ''0123456789_'' factor
      in case partition_on CHR ''_'' (drop (length base) factor) of
           (numer, sep, denom) \<Rightarrow>
             (case py_int_or_1 numer of Inl e \<Rightarrow> Inl e | Inr n \<Rightarrow>
              (case py_int_or_1 denom of Inl e \<Rightarrow> Inl e | Inr d \<Rightarrow>
                 if d = 0 then Inl ZeroDivisionError else Inr (base, Fract n d))))"

fun factors_of_parts :: "bool \<Rightarrow> string list \<Rightarrow> (error + string \<times> rat \<times> bool) list" where
  "factors_of_parts isnumer [] = []"
| "factors_of_parts isnumer (factor # rest) =
     (if factor \<noteq> []
      then [case factor_of factor of Inl e \<Rightarrow> Inl e | Inr (base, pw) \<Rightarrow> Inr (base, pw, isnumer)]
      else [])
     @ factors_of_parts False rest"

text \<open>
  The generator \<open>_split_factors\<close>: the items it yields, in order, an exception raised while
  computing an item being \<open>Inl\<close>. The generator ends at its first exception, so whoever
  consumes the list stops at the first \<open>Inl\<close>.
\<close>

definition split_factors :: "string \<Rightarrow> (error + string \<times> rat \<times> bool) list" where
  "split_factors s =
     concat (map (\<lambda>parts. factors_of_parts True (split_on CHR ''/'' parts)) (split_on CHR ''*'' s))"

text \<open>
  \<open>float(s)\<close> on a string of the characters \<open>+-0123456789.\<close>: an optional sign, then digits
  with at most one point and at least one digit; the host converts a well-formed literal.
\<close>

definition float_literal_ok :: "string \<Rightarrow> bool" where
  "float_literal_ok s =
     (let body = (case s of [] \<Rightarrow> [] | c # r \<Rightarrow> if c = CHR ''+'' \<or> c = CHR ''-'' then r else s);
          ip = takeWhile is_digit body
      in case dropWhile is_digit body of
           [] \<Rightarrow> ip \<noteq> []
         | c # fp \<Rightarrow> c = CHR ''.'' \<and> list_all is_digit fp \<and> (ip \<noteq> [] \<or> fp \<noteq> []))"

text \<open>\<open>float(s or 1)\<close>.\<close>

definition py_float_or_1 :: "'v host \<Rightarrow> string \<Rightarrow> error + 'v" where
  "py_float_or_1 h s =
     (if s = [] then Inr (h_float h ''1'')
      else if float_literal_ok s then Inr (h_float h s) else Inl ValueError)"

text \<open>
  \<open>operator.mul\<close>, \<open>operator.truediv\<close> and \<open>operator.pow\<close> as \<open>_dispatch\<close> calls them on the
  unwrapped arguments.
\<close>

definition op_mul :: "'v host \<Rightarrow> 'v obj list \<Rightarrow> error + 'v" where
  "op_mul h args = (case args of [Raw x, Raw y] \<Rightarrow> Inr (h_mul h x y) | _ \<Rightarrow> Inl TypeError)"

definition op_truediv :: "'v host \<Rightarrow> 'v obj list \<Rightarrow> error + 'v" where
  "op_truediv h args = (case args of [Raw x, Raw y] \<Rightarrow> h_truediv h x y | _ \<Rightarrow> Inl TypeError)"

definition op_pow :: "'v host \<Rightarrow> 'v obj list \<Rightarrow> error + 'v" where
  "op_pow h args = (case args of [Raw x, Frac r] \<Rightarrow> h_pow h x r | _ \<Rightarrow> Inl TypeError)"

text \<open>
  The expressions \<open>a * b\<close>, \<open>a / b\<close> and \<open>a ** r\<close> of \<open>parse\<close> and of \<open>Units.__setattr__\<close>:
  between two payloads the host computes; when an operand is a \<open>Quantity\<close>, its \<open>__mul__\<close> or
  \<open>__rmul__\<close> (and so on) calls \<open>_dispatch\<close> with the operands in their order.
\<close>

definition is_qty :: "'v obj \<Rightarrow> bool" where
  "is_qty x = (case x of Qty q \<Rightarrow> True | _ \<Rightarrow> False)"

definition py_mul :: "'v host \<Rightarrow> cache \<Rightarrow> 'v obj \<Rightarrow> 'v obj \<Rightarrow> (error + 'v obj) \<times> cache" where
  "py_mul h cache a b =
     (if is_qty a \<or> is_qty b then dispatch_core h cache ''mul'' (op_mul h) [a, b]
      else (case (a, b) of
              (Raw x, Raw y) \<Rightarrow> (Inr (Raw (h_mul h x y)), cache)
            | _ \<Rightarrow> (Inl TypeError, cache)))"

definition py_truediv :: "'v host \<Rightarrow> cache \<Rightarrow> 'v obj \<Rightarrow> 'v obj \<Rightarrow> (error + 'v obj) \<times> cache" where
  "py_truediv h cache a b =
     (if is_qty a \<or> is_qty b then dispatch_core h cache ''truediv'' (op_truediv h) [a, b]
      else (case (a, b) of
              (Raw x, Raw y) \<Rightarrow>
                (case h_truediv h x y of Inl e \<Rightarrow> (Inl e, cache) | Inr r \<Rightarrow> (Inr (Raw r), cache))
            | _ \<Rightarrow> (Inl TypeError, cache)))"

definition py_pow :: "'v host \<Rightarrow> cache \<Rightarrow> 'v obj \<Rightarrow> rat \<Rightarrow> (error + 'v obj) \<times> cache" where
  "py_pow h cache a r =
     (if is_qty a then dispatch_core h cache ''pow'' (op_pow h) [a, Frac r]
      else (case a of
              Raw x \<Rightarrow>
                (case h_pow h x r of Inl e \<Rightarrow> (Inl e, cache) | Inr y \<Rightarrow> (Inr (Raw y), cache))
            | _ \<Rightarrow> (Inl TypeError, cache)))"

text \<open>
  The unit registry is the dict \<open>units\<close>. \<open>getattr(units, name)\<close> finds the attributes of the
  class first (the methods of \<open>dict\<close> and the prefix table; every other attribute of the
  class ends in an underscore and is never asked for by \<open>parse\<close>), then \<open>Units.__getattr__\<close>
  looks the name up in the dict.
\<close>

type_synonym 'v units = "(string \<times> 'v obj) list"

definition class_attributes :: "(string \<times> string) list" where
  "class_attributes =
     map (\<lambda>n. (n, ''builtin_function_or_method''))
       [''clear'', ''copy'', ''fromkeys'', ''get'', ''items'', ''keys'', ''pop'', ''popitem'',
        ''setdefault'', ''update'', ''values'']
     @ [(''_Units__prefix'', ''dict'')]"

definition units_getattr :: "'v units \<Rightarrow> string \<Rightarrow> error + 'v obj" where
  "units_getattr units name =
     (case map_of class_attributes name of
        Some t \<Rightarrow> Inr (Other t)
      | None \<Rightarrow> (case map_of units name of None \<Rightarrow> Inl AttributeError | Some v \<Rightarrow> Inr v))"

text \<open>
  The right-hand side \<open>float(expr[:len(expr)-len(u)] or 1) * getattr(units, u)**power\<close> and
  the \<open>except\<close> clause around it.
\<close>

definition factor_value ::
  "'v host \<Rightarrow> 'v units \<Rightarrow> cache \<Rightarrow> string \<Rightarrow> rat \<Rightarrow> (error + 'v obj) \<times> cache" where
  "factor_value h units cache expr pw =
     (let u = lstrip ''+-0123456789.'' expr
      in case py_float_or_1 h (take (length expr - length u) expr) of
           Inl e \<Rightarrow> (Inl e, cache)
         | Inr c \<Rightarrow>
             (case units_getattr units u of
                Inl e \<Rightarrow> (Inl e, cache)
              | Inr unit \<Rightarrow>
                  (case py_pow h cache unit pw of
                     (Inl e, cache') \<Rightarrow> (Inl e, cache')
                   | (Inr up, cache') \<Rightarrow> py_mul h cache' (Raw c) up)))"

definition except_value_attribute :: "error \<Rightarrow> error" where
  "except_value_attribute e = (if e = ValueError \<or> e = AttributeError then ValueError else e)"

fun parse_loop ::
  "'v host \<Rightarrow> 'v units \<Rightarrow> cache \<Rightarrow> 'v obj \<Rightarrow> (error + string \<times> rat \<times> bool) list
     \<Rightarrow> (error + 'v obj) \<times> cache" where
  "parse_loop h units cache q [] = (Inr q, cache)"
| "parse_loop h units cache q (Inl e # rest) = (Inl e, cache)"
| "parse_loop h units cache q (Inr (expr, pw, isnumer) # rest) =
     (case factor_value h units cache expr pw of
        (Inl e, cache') \<Rightarrow> (Inl (except_value_attribute e), cache')
      | (Inr v, cache') \<Rightarrow>
          (case (if isnumer then py_mul h cache' q v else py_truediv h cache' q v) of
             (Inl e, cache'') \<Rightarrow> (Inl e, cache'')
           | (Inr q', cache'') \<Rightarrow> parse_loop h units cache'' q' rest))"

text \<open>\<open>q._parsed_from = s\<close>: a float has no attributes to set.\<close>

definition set_parsed_from :: "string \<Rightarrow> 'v obj \<Rightarrow> error + 'v obj" where
  "set_parsed_from s q = (case q of
       Qty r \<Rightarrow> Inr (Qty (r\<lparr>q_parsed_from := Some s\<rparr>))
     | _ \<Rightarrow> Inl AttributeError)"

definition parse :: "'v host \<Rightarrow> 'v units \<Rightarrow> cache \<Rightarrow> string \<Rightarrow> (error + 'v obj) \<times> cache" where
  "parse h units cache s =
     (let tail = lstrip ''+-0123456789.'' s
      in case py_float_or_1 h (take (length s - length tail) s) of
           Inl e \<Rightarrow> (Inl e, cache)
         | Inr c \<Rightarrow>
             (case parse_loop h units cache (Raw c) (split_factors tail) of
                (Inl e, cache') \<Rightarrow> (Inl e, cache')
              | (Inr q, cache') \<Rightarrow> (set_parsed_from s q, cache')))"

text \<open>
  \<open>Quantity._dispatch\<close>: the string arguments are parsed in order, then the chain above
  runs. The operators inside \<open>parse\<close> pass no strings, which is why \<open>parse\<close> can use
  \<open>dispatch_core\<close>.
\<close>

fun parse_args ::
  "'v host \<Rightarrow> 'v units \<Rightarrow> cache \<Rightarrow> 'v obj list \<Rightarrow> (error + 'v obj list) \<times> cache" where
  "parse_args h units cache [] = (Inr [], cache)"
| "parse_args h units cache (arg # rest) =
     (case (case arg of Str s \<Rightarrow> parse h units cache s | _ \<Rightarrow> (Inr arg, cache)) of
        (Inl e, cache') \<Rightarrow> (Inl e, cache')
      | (Inr a, cache') \<Rightarrow>
          (case parse_args h units cache' rest of
             (Inl e, cache'') \<Rightarrow> (Inl e, cache'')
           | (Inr as, cache'') \<Rightarrow> (Inr (a # as), cache'')))"

definition dispatch ::
  "'v host \<Rightarrow> 'v units \<Rightarrow> cache \<Rightarrow> string \<Rightarrow> ('v obj list \<Rightarrow> error + 'v) \<Rightarrow> 'v obj list
     \<Rightarrow> (error + 'v obj) \<times> cache" where
  "dispatch h units cache name op args =
     (case parse_args h units cache args of
        (Inl e, cache') \<Rightarrow> (Inl e, cache')
      | (Inr args', cache') \<Rightarrow> dispatch_core h cache' name op args')"

section \<open>Declaring dimensions, calling a dimension, displaying a quantity\<close>

text \<open>\<open>Dimension.create\<close>; \<open>next\<close> on a generator that yields nothing raises \<open>StopIteration\<close>.\<close>

definition create :: "cache \<Rightarrow> string \<Rightarrow> (error + dimension) \<times> cache" where
  "create cache arg =
     (case split_factors arg of
        [] \<Rightarrow> (Inl StopIteration, cache)
      | Inl e # rest \<Rightarrow> (Inl e, cache)
      | Inr (base, pw, isnumer) # rest \<Rightarrow>
          if base \<noteq> arg then (Inl ValueError, cache)
          else if map_of cache arg \<noteq> None then (Inl ValueError, cache)
          else (case from_powers cache [(arg, 1)] of (d, cache') \<Rightarrow> (Inr d, cache')))"

text \<open>\<open>Dimension.__call__\<close> on a class made by \<open>from_powers\<close>.\<close>

definition dimension_call ::
  "'v host \<Rightarrow> 'v units \<Rightarrow> cache \<Rightarrow> dimension \<Rightarrow> 'v obj \<Rightarrow> (error + 'v obj) \<times> cache" where
  "dimension_call h units cache cls v =
     (case v of
        Qty q \<Rightarrow>
          if cls_id (q_type q) = cls_id cls then (Inr v, cache) else (Inl ValueError, cache)
      | Str s \<Rightarrow>
          (case parse h units cache s of
             (Inl e, cache') \<Rightarrow> (Inl e, cache')
           | (Inr q, cache') \<Rightarrow>
               if type_ne (type_of h q) (if cls_powers cls = [] then Plain ''float'' else Dim cls)
               then (Inl TypeError, cache') else (Inr q, cache'))
      | _ \<Rightarrow> (Inl ValueError, cache))"

text \<open>\<open>Quantity.__str__\<close>.\<close>

definition quantity_str :: "'v host \<Rightarrow> 'v quantity \<Rightarrow> string" where
  "quantity_str h self = h_str h (q_value self) @ cls_name (q_type self)"

text \<open>
  \<open>repr(self)\<close>: the class \<open>Quantity\<close> defines no \<open>__repr__\<close>, so this is \<open>object.__repr__\<close>,
  made of the module name, of the \<open>__qualname__\<close> that \<open>from_powers\<close> sets to \<open>Quantity.\<close>
  followed by the \<open>__name__\<close>, and of the address of the object as \<open>addr\<close> renders it.
\<close>

definition object_repr :: "string \<Rightarrow> ('v quantity \<Rightarrow> string) \<Rightarrow> 'v quantity \<Rightarrow> string" where
  "object_repr modname addr self =
     ''<'' @ modname @ ''.'' @ ''Quantity.'' @ cls_name (q_type self)
       @ '' object at '' @ addr self @ ''>''"

text \<open>
  \<open>Quantity.__format__\<close>. When the quotient is again a \<open>Quantity\<close> its own \<open>__format__\<close> is
  called; the first argument bounds the depth of these calls, and \<open>None\<close> is a call that is
  cut off.
\<close>

fun quantity_format ::
  "nat \<Rightarrow> 'v host \<Rightarrow> 'v units \<Rightarrow> string \<Rightarrow> ('v quantity \<Rightarrow> string) \<Rightarrow> cache \<Rightarrow> 'v quantity
     \<Rightarrow> string \<Rightarrow> ((error + string) \<times> cache) option" where
  "quantity_format 0 h units modname addr cache self format_spec = None"
| "quantity_format (Suc fuel) h units modname addr cache self format_spec =
     (if format_spec = [] then Some (Inr (object_repr modname addr self), cache)
      else
        (let n = length format_spec - length (lstrip ''0123456789.,'' format_spec)
         in case dimension_call h units cache (q_type self) (Str (drop n format_spec)) of
              (Inl e, c1) \<Rightarrow> Some (Inl e, c1)
            | (Inr u, c1) \<Rightarrow>
                (case py_truediv h c1 (Qty self) u of
                   (Inl e, c2) \<Rightarrow> Some (Inl e, c2)
                 | (Inr (Raw r), c2) \<Rightarrow>
                     (case h_format h r (take n format_spec @ ''f'') of
                        Inl e \<Rightarrow> Some (Inl e, c2)
                      | Inr t \<Rightarrow> Some (Inr (t @ drop n format_spec), c2))
                 | (Inr (Qty v), c2) \<Rightarrow>
                     (case quantity_format fuel h units modname addr c2 v
                             (take n format_spec @ ''f'') of
                        None \<Rightarrow> None
                      | Some (Inl e, c3) \<Rightarrow> Some (Inl e, c3)
                      | Some (Inr t, c3) \<Rightarrow> Some (Inr (t @ drop n format_spec), c3))
                 | (Inr x, c2) \<Rightarrow> Some (Inl TypeError, c2))))"

section \<open>The unit registry\<close>

text \<open>
  \<open>Units.__prefix\<close>, the factors as the float literals of the source; the prefix micro is
  the letter mu, two bytes in UTF-8.
\<close>

definition prefix_table :: "(string \<times> string) list" where
  "prefix_table =
     [(''Y'', ''1e24''), (''Z'', ''1e21''), (''E'', ''1e18''), (''P'', ''1e15''), (''T'', ''1e12''),
      (''G'', ''1e9''), (''M'', ''1e6''), (''k'', ''1e3''), (''h'', ''1e2''),
      (''d'', ''1e-1''), (''c'', ''1e-2''), (''m'', ''1e-3''), ([CHR 0xCE, CHR 0xBC], ''1e-6''),
      (''n'', ''1e-9''), (''p'', ''1e-12''), (''f'', ''1e-15''), (''a'', ''1e-18''),
      (''z'', ''1e-21''), (''y'', ''1e-24'')]"

text \<open>The dict comprehension \<open>{p + name: value * s for p, s in self.__prefix.items()}\<close>.\<close>

fun scale_units ::
  "'v host \<Rightarrow> cache \<Rightarrow> string \<Rightarrow> 'v obj \<Rightarrow> (string \<times> string) list \<Rightarrow> 'v units
     \<Rightarrow> (error + 'v units) \<times> cache" where
  "scale_units h cache name v [] acc = (Inr acc, cache)"
| "scale_units h cache name v ((p, s) # rest) acc =
     (case py_mul h cache v (Raw (h_float h s)) of
        (Inl e, cache') \<Rightarrow> (Inl e, cache')
      | (Inr scaled, cache') \<Rightarrow>
          scale_units h cache' name v rest (AList.update (p @ name) scaled acc))"

definition dict_update_all :: "('k \<times> 'a) list \<Rightarrow> ('k \<times> 'a) list \<Rightarrow> ('k \<times> 'a) list" where
  "dict_update_all self other = foldl (\<lambda>d (k, v). AList.update k v d) self other"

text \<open>
  \<open>Units.__setattr__\<close>: the exception raised, if any, with the registry and the dimension
  cache as the call leaves them.
\<close>

definition units_setattr ::
  "'v host \<Rightarrow> 'v units \<Rightarrow> cache \<Rightarrow> string \<Rightarrow> 'v obj \<Rightarrow> error option \<times> 'v units \<times> cache" where
  "units_setattr h units cache name v =
     (case (case v of
              Qty q \<Rightarrow> (Inr v, cache)
            | Str s \<Rightarrow> parse h units cache s
            | _ \<Rightarrow> (Inl TypeError, cache)) of
        (Inl e, cache') \<Rightarrow> (Some e, units, cache')
      | (Inr v', cache') \<Rightarrow>
          if map_of units name \<noteq> None then (Some ValueError, units, cache')
          else
            (case scale_units h cache' name v' prefix_table [] of
               (Inl e, cache'') \<Rightarrow> (Some e, units, cache'')
             | (Inr scaled_units, cache'') \<Rightarrow>
                 if list_ex (\<lambda>k. map_of units k \<noteq> None) (map fst scaled_units)
                 then (Some ValueError, units, cache'')
                 else (None, dict_update_all (AList.update name v' units) scaled_units, cache'')))"

section \<open>The module's dimensions and units\<close>

text \<open>
  The statements of the sections \<open>SI DIMENSIONS\<close> and \<open>SI UNITS\<close> of the module, as data: the
  names bound and the expression bound to them. The module runs them in order when it is
  imported.
\<close>

datatype dim_expr = Create string | Power string int | Times string string | Over string string

type_synonym globals = "(string \<times> dimension) list"

definition si_dimension_statements :: "(string list \<times> dim_expr) list" where
  "si_dimension_statements =
     [([''Time''], Create ''T''),
      ([''Length''], Create ''L''),
      ([''Mass''], Create ''M''),
      ([''ElectricCurrent''], Create ''I''),
      ([''Temperature''], Create ([CHR 0xCE, CHR 0xB8])),
      ([''AmountOfSubstance''], Create ''N''),
      ([''LuminousFlux'', ''LuminousIntensity''], Create ''J''),
      ([''Area''], Power ''Length'' 2),
      ([''Volume''], Power ''Length'' 3),
      ([''WaveNumber'', ''Vergence''], Power ''Length'' (-1)),
      ([''Velocity'', ''Speed''], Over ''Length'' ''Time''),
      ([''Acceleration''], Over ''Velocity'' ''Time''),
      ([''Force'', ''Weight''], Times ''Mass'' ''Acceleration''),
      ([''Pressure'', ''Stress''], Over ''Force'' ''Area''),
      ([''Tension''], Over ''Force'' ''Length''),
      ([''Energy'', ''Work'', ''Heat''], Times ''Force'' ''Length''),
      ([''Power''], Over ''Energy'' ''Time''),
      ([''Density''], Over ''Mass'' ''Volume''),
      ([''SpecificVolume'', ''MassConcentration''], Power ''Density'' (-1)),
      ([''SurfaceDensity''], Over ''Mass'' ''Area''),
      ([''Viscosity''], Times ''Pressure'' ''Time''),
      ([''Frequency'', ''Radioactivity''], Power ''Time'' (-1)),
      ([''CurrentDensity''], Over ''ElectricCurrent'' ''Area''),
      ([''MagneticFieldStrength''], Over ''ElectricCurrent'' ''Length''),
      ([''Charge''], Times ''ElectricCurrent'' ''Time''),
      ([''ElectricPotential''], Over ''Power'' ''ElectricCurrent''),
      ([''Capacitance''], Over ''Charge'' ''ElectricPotential''),
      ([''Resistance'', ''Impedance'', ''Reactance''], Over ''ElectricPotential'' ''ElectricCurrent''),
      ([''Conductance''], Power ''Resistance'' (-1)),
      ([''MagneticFlux''], Times ''ElectricPotential'' ''Time''),
      ([''MagneticFluxDensity''], Over ''MagneticFlux'' ''Area''),
      ([''Inductance''], Over ''MagneticFlux'' ''ElectricCurrent''),
      ([''Llluminance''], Over ''LuminousFlux'' ''Area''),
      ([''AbsorbedDose'', ''EquivalentDose''], Over ''Energy'' ''Mass''),
      ([''Concentration''], Over ''AmountOfSubstance'' ''Volume''),
      ([''CatalyticActivity''], Over ''AmountOfSubstance'' ''Time'')]"

definition eval_dim_expr :: "globals \<Rightarrow> cache \<Rightarrow> dim_expr \<Rightarrow> (error + dimension) \<times> cache" where
  "eval_dim_expr env cache e = (case e of
       Create s \<Rightarrow> create cache s
     | Power a k \<Rightarrow>
         (case map_of env a of None \<Rightarrow> (Inl NameError, cache)
          | Some cls \<Rightarrow> (case dim_pow cache cls (of_int k) of (d, cache') \<Rightarrow> (Inr d, cache')))
     | Times a b \<Rightarrow>
         (case map_of env a of None \<Rightarrow> (Inl NameError, cache) | Some cls \<Rightarrow>
          (case map_of env b of None \<Rightarrow> (Inl NameError, cache) | Some other \<Rightarrow>
             (case binop cache (+) (cls_powers cls) (cls_powers other) of
                (d, cache') \<Rightarrow> (Inr d, cache'))))
     | Over a b \<Rightarrow>
         (case map_of env a of None \<Rightarrow> (Inl NameError, cache) | Some cls \<Rightarrow>
          (case map_of env b of None \<Rightarrow> (Inl NameError, cache) | Some other \<Rightarrow>
             (case binop cache (-) (cls_powers cls) (cls_powers other) of
                (d, cache') \<Rightarrow> (Inr d, cache')))))"

fun run_dim_statements ::
  "globals \<Rightarrow> cache \<Rightarrow> (string list \<times> dim_expr) list \<Rightarrow> (error + globals) \<times> cache" where
  "run_dim_statements env cache [] = (Inr env, cache)"
| "run_dim_statements env cache ((names, e) # rest) =
     (case eval_dim_expr env cache e of
        (Inl err, cache') \<Rightarrow> (Inl err, cache')
      | (Inr d, cache') \<Rightarrow>
          run_dim_statements (foldl (\<lambda>g n. AList.update n d g) env names) cache' rest)"

datatype unit_expr = Reference string | ReferenceTimes string string | Expression string

definition si_unit_statements :: "(string \<times> unit_expr) list" where
  "si_unit_statements =
     [(''m'', Reference ''Length''),
      (''s'', Reference ''Time''),
      (''g'', ReferenceTimes ''Mass'' ''1e-3''),
      (''A'', Reference ''ElectricCurrent''),
      (''K'', Reference ''Temperature''),
      (''mol'', Reference ''AmountOfSubstance''),
      (''cd'', Reference ''LuminousIntensity''),
      (''N'', Expression ''kg*m/s2''),
      (''Pa'', Expression ''N/m2''),
      (''J'', Expression ''N*m''),
      (''W'', Expression ''J/s''),
      (''Hz'', Expression ''/s''),
      (''C'', Expression ''A*s''),
      (''V'', Expression ''J/C''),
      (''F'', Expression ''C/V''),
      ([CHR 0xCE, CHR 0xA9], Expression ''V/A''),
      (''S'', Expression (''/'' @ [CHR 0xCE, CHR 0xA9])),
      (''Wb'', Expression ''V*s''),
      (''T'', Expression ''Wb/m2''),
      (''H'', Expression ''Wb/A''),
      (''lm'', Expression ''cd''),
      (''lx'', Expression ''lm/m2''),
      (''Bq'', Expression ''/s''),
      (''Gy'', Expression ''J/kg''),
      (''Sv'', Expression ''J/kg''),
      (''kat'', Expression ''mol/s''),
      (''min'', Expression ''60s''),
      (''h'', Expression ''60min''),
      (''day'', Expression ''24h''),
      (''au'', Expression ''149597870700m''),
      (''ha'', Expression ''hm2''),
      (''L'', Expression ''dm3''),
      (''t'', Expression ''1000kg''),
      (''Da'', Expression ''1.66053904020yg''),
      (''eV'', Expression ''.1602176634aJ'')]"

text \<open>\<open>cls.reference_quantity\<close> is \<open>cls.__wrap__(1.)\<close>.\<close>

definition reference_quantity :: "'v host \<Rightarrow> dimension \<Rightarrow> 'v obj" where
  "reference_quantity h cls = wrap cls (h_float h ''1.'')"

definition eval_unit_expr ::
  "'v host \<Rightarrow> globals \<Rightarrow> cache \<Rightarrow> unit_expr \<Rightarrow> (error + 'v obj) \<times> cache" where
  "eval_unit_expr h env cache e = (case e of
       Reference a \<Rightarrow>
         (case map_of env a of None \<Rightarrow> (Inl NameError, cache)
          | Some cls \<Rightarrow> (Inr (reference_quantity h cls), cache))
     | ReferenceTimes a lit \<Rightarrow>
         (case map_of env a of None \<Rightarrow> (Inl NameError, cache)
          | Some cls \<Rightarrow> py_mul h cache (reference_quantity h cls) (Raw (h_float h lit)))
     | Expression s \<Rightarrow> (Inr (Str s), cache))"

fun run_unit_statements ::
  "'v host \<Rightarrow> globals \<Rightarrow> 'v units \<Rightarrow> cache \<Rightarrow> (string \<times> unit_expr) list
     \<Rightarrow> error option \<times> 'v units \<times> cache" where
  "run_unit_statements h env units cache [] = (None, units, cache)"
| "run_unit_statements h env units cache ((name, e) # rest) =
     (case eval_unit_expr h env cache e of
        (Inl err, cache') \<Rightarrow> (Some err, units, cache')
      | (Inr v, cache') \<Rightarrow>
          (case units_setattr h units cache' name v of
             (Some err, units', cache'') \<Rightarrow> (Some err, units', cache'')
           | (None, units', cache'') \<Rightarrow> run_unit_statements h env units' cache'' rest))"

section \<open>A host for running the model\<close>

text \<open>
  To run the model on concrete inputs a host is needed. This one computes nothing: a payload
  is the expression that the host was asked to evaluate, built from the float literals, and
  no operation fails.
\<close>

datatype sym = Lit string | Mul sym sym | Div sym sym | Pow sym rat | Apply string "sym list"

definition sym_host :: "sym host" where
  "sym_host = \<lparr>
     h_float = Lit,
     h_mul = Mul,
     h_truediv = (\<lambda>x y. Inr (Div x y)),
     h_pow = (\<lambda>x r. Inr (Pow x r)),
     h_fraction = (\<lambda>x. Inl TypeError),
     h_type = (\<lambda>x. ''float''),
     h_str = (\<lambda>x. case x of Lit s \<Rightarrow> s | _ \<Rightarrow> ''?''),
     h_format = (\<lambda>x spec. Inl ValueError)\<rparr>"

text \<open>A host operation on payloads only, such as \<open>numpy.add\<close> or \<open>operator.lt\<close>.\<close>

fun raw_values :: "'v obj list \<Rightarrow> 'v list option" where
  "raw_values [] = Some []"
| "raw_values (x # xs) = (case x of
       Raw v \<Rightarrow> (case raw_values xs of None \<Rightarrow> None | Some vs \<Rightarrow> Some (v # vs))
     | _ \<Rightarrow> None)"

definition sym_op :: "string \<Rightarrow> sym obj list \<Rightarrow> error + sym" where
  "sym_op name args = (case raw_values args of None \<Rightarrow> Inl TypeError | Some vs \<Rightarrow> Inr (Apply name vs))"

text \<open>
  The canonical name as the specification words it: the tokens of the entries sorted by
  symbol, then by descending power, concatenated. It is compared with \<open>canonical_name\<close>,
  which is what the code builds.
\<close>

definition claimed_name :: "powers \<Rightarrow> string" where
  "claimed_name powers = concat (map token (sort_key (\<lambda>item. (fst item, - snd item)) powers))"

section \<open>Example values\<close>

text \<open>
  The classes that the module binds to \<open>Time\<close> and \<open>Length\<close> (the first two it creates),
  and an instance as \<open>__wrap__\<close> makes it.
\<close>

definition Time :: dimension where
  "Time = \<lparr>cls_id = 0, cls_name = ''[T]'', cls_powers = [(''T'', 1)]\<rparr>"

definition Length :: dimension where
  "Length = \<lparr>cls_id = 1, cls_name = ''[L]'', cls_powers = [(''L'', 1)]\<rparr>"

definition quantity_of :: "dimension \<Rightarrow> 'v \<Rightarrow> 'v quantity" where
  "quantity_of cls v = \<lparr>q_type = cls, q_value = v, q_parsed_from = None\<rparr>"

section \<open>Registries built from valid symbols\<close>

text \<open>
  The symbols that \<open>Dimension.create\<close> admits: \<open>_split_factors\<close> has to yield the argument
  itself as its first base, which excludes the empty string, a \<open>*\<close> or a \<open>/\<close> anywhere in
  it, and a last character among \<open>0123456789_\<close>. \<open>from_powers\<close> itself only checks that the
  keys are strings. A dict of valid symbols is one whose keys are all such symbols.
\<close>

definition valid_symbol :: "string \<Rightarrow> bool" where
  "valid_symbol s = (s \<noteq> [] \<and> CHR ''*'' \<notin> set s \<and> CHR ''/'' \<notin> set s
     \<and> last s \<notin> set ''0123456789_'')"

definition valid_powers :: "powers \<Rightarrow> bool" where
  "valid_powers p = (is_dict p \<and> (\<forall>item \<in> set p. valid_symbol (fst item)))"

text \<open>No exponent is zero, as in the dict that \<open>from_powers\<close> keeps.\<close>

definition nonzero :: "powers \<Rightarrow> bool" where
  "nonzero p = (\<forall>item \<in> set p. snd item \<noteq> 0)"

text \<open>
  The state of the cache when every class in it was made by \<open>from_powers\<close> from a dict of
  valid symbols: a class is filed under the canonical name of its powers, its identity is
  below the number of classes, and two entries never share an identity.
\<close>

definition registry_ok :: "cache \<Rightarrow> bool" where
  "registry_ok cache =
     ((\<forall>entry \<in> set cache.
          cls_id (snd entry) < length cache
        \<and> fst entry = canonical_name (cls_powers (snd entry))
        \<and> valid_powers (cls_powers (snd entry))
        \<and> nonzero (cls_powers (snd entry)))
      \<and> (\<forall>e \<in> set cache. \<forall>e' \<in> set cache. cls_id (snd e) = cls_id (snd e') \<longrightarrow> fst e = fst e'))"

text \<open>A later state of the cache: every name bound before is still bound to the same class.\<close>

definition extends :: "cache \<Rightarrow> cache \<Rightarrow> bool" where
  "extends c c' =
     (\<forall>entry \<in> set c. map_of c (fst entry) = Some (snd entry)
        \<longrightarrow> map_of c' (fst entry) = Some (snd entry))"

text \<open>
  The dimensionless class as \<open>Length / Length\<close> makes it after \<open>Time\<close> and \<open>Length\<close>, and
  the cache that then holds the three classes.
\<close>

definition Dimensionless :: dimension where
  "Dimensionless = \<lparr>cls_id = 2, cls_name = ''[]'', cls_powers = []\<rparr>"

definition example_cache :: cache where
  "example_cache = [(''T'', Time), (''L'', Length), ('''', Dimensionless)]"

text \<open>
  For reading a name back: the text that a token appends to the symbol, and the shape of a
  token (a separator, then a nonempty body without separators).
\<close>

definition exponent_text :: "rat \<Rightarrow> string" where
  "exponent_text pw =
     (if \<bar>numerator pw\<bar> \<noteq> 1 then str_int \<bar>numerator pw\<bar> else '''')
     @ (if \<bar>denominator pw\<bar> \<noteq> 1 then ''_'' @ str_int \<bar>denominator pw\<bar> else '''')"

definition is_sep :: "char \<Rightarrow> bool" where
  "is_sep c = (c = CHR ''*'' \<or> c = CHR ''/'')"

definition tok_shaped :: "string \<Rightarrow> bool" where
  "tok_shaped t = (case t of [] \<Rightarrow> False
     | c # body \<Rightarrow> is_sep c \<and> body \<noteq> [] \<and> (\<forall>x \<in> set body. \<not> is_sep x))"

section \<open>Properties of the canonical name\<close>

lemma is_dict_distinct: "is_dict kvs \<Longrightarrow> distinct kvs"
  unfolding is_dict_def by (simp add: distinct_map)

lemma set_sorted_reverse [simp]: "set (sorted_reverse k xs) = set xs"
  by (simp add: sorted_reverse_def)

lemma distinct_sorted_reverse [simp]: "distinct (sorted_reverse k xs) = distinct xs"
  by (simp add: sorted_reverse_def)

lemma sorted_reverse_descending:
  assumes "distinct (map k xs)"
  shows "sorted_wrt (\<lambda>x y. k y < k x) (sorted_reverse k xs)"
proof -
  let ?ys = "sort_key k (rev xs)"
  have "distinct (map k ?ys)"
    using assms by (simp add: distinct_map distinct_rev)
  moreover have "sorted (map k ?ys)" by simp
  ultimately have "sorted_wrt (<) (map k ?ys)"
    by (simp add: strict_sorted_iff)
  then have "sorted_wrt (\<lambda>x y. k x < k y) ?ys"
    by (simp add: sorted_wrt_map)
  then show ?thesis
    by (simp add: sorted_reverse_def sorted_wrt_rev)
qed

lemma swap_key_distinct:
  assumes "distinct xs"
  shows "distinct (map (\<lambda>item. (snd item, fst item)) xs)"
  using assms by (simp add: distinct_map inj_on_def prod_eq_iff)

lemma from_powers_key:
  "map_of (snd (from_powers cache arg)) (canonical_name (nonzero_powers arg))
     = Some (fst (from_powers cache arg))"
  by (simp add: from_powers_def Let_def update_Some_unfold split: option.split)

text \<open>
  C2 (as amended): for a well-formed dict, the name under which \<open>from_powers\<close> caches its
  result is the concatenation of the tokens of the nonzero entries, in strictly descending
  order of (power, symbol), with the leading \<open>*\<close> characters stripped. A token is \<open>*\<close> for
  a positive and \<open>/\<close> for a negative power, the symbol, the numerator unless its magnitude
  is 1, and \<open>_\<close> with the denominator unless it is 1.
\<close>

theorem canonical_name_sorted_tokens:
  assumes "is_dict arg"
  shows "\<exists>es. set es = {e \<in> set arg. snd e \<noteq> 0} \<and> distinct es
     \<and> sorted_wrt (\<lambda>x y. snd y < snd x \<or> snd y = snd x \<and> fst y < fst x) es
     \<and> map_of (snd (from_powers cache arg))
          (dropWhile (\<lambda>c. c = CHR ''*'') (concat (map token es)))
        = Some (fst (from_powers cache arg))"
proof -
  let ?k = "\<lambda>item::string \<times> rat. (snd item, fst item)"
  let ?es = "sorted_reverse ?k (nonzero_powers arg)"
  have d: "distinct (nonzero_powers arg)"
    using is_dict_distinct [OF assms] by (simp add: nonzero_powers_def)
  have "set ?es = {e \<in> set arg. snd e \<noteq> 0}"
    by (auto simp: nonzero_powers_def)
  moreover have "distinct ?es" using d by simp
  moreover have "sorted_wrt (\<lambda>x y. ?k y < ?k x) ?es"
    by (rule sorted_reverse_descending) (rule swap_key_distinct [OF d])
  then have "sorted_wrt (\<lambda>x y. snd y < snd x \<or> snd y = snd x \<and> fst y < fst x) ?es"
    by (rule sorted_wrt_mono_rel [rotated]) (auto simp: less_prod_def)
  moreover have "dropWhile (\<lambda>c. c = CHR ''*'') (concat (map token ?es))
      = canonical_name (nonzero_powers arg)"
    by (simp add: canonical_name_def lstrip_def)
  ultimately show ?thesis
    using from_powers_key [of cache arg] by (intro exI [of _ ?es]) simp
qed

theorem canonical_name_sorted_tokens_witness:
  "is_dict [(''L'', - 1 :: rat), (''M'', 0), (''T'', 1)] \<and>
   (\<exists>es. set es = {e \<in> set [(''L'', - 1 :: rat), (''M'', 0), (''T'', 1)]. snd e \<noteq> 0} \<and> distinct es
     \<and> sorted_wrt (\<lambda>x y. snd y < snd x \<or> snd y = snd x \<and> fst y < fst x) es
     \<and> map_of (snd (from_powers [] [(''L'', - 1), (''M'', 0), (''T'', 1)]))
          (dropWhile (\<lambda>c. c = CHR ''*'') (concat (map token es)))
        = Some (fst (from_powers [] [(''L'', - 1), (''M'', 0), (''T'', 1)])))"
proof -
  have h: "is_dict [(''L'', - 1 :: rat), (''M'', 0), (''T'', 1)]"
    by (simp add: is_dict_def)
  show ?thesis
    using h canonical_name_sorted_tokens [OF h, of "[]"] by simp
qed

text \<open>
  C2 as stated fails: for the powers \<open>L: -1, T: 1\<close> the code names the class \<open>[T/L]\<close>
  (descending power first, leading \<open>*\<close> stripped), where the sort by symbol and the
  prefixed tokens of the claim give \<open>/L*T\<close>.
\<close>

theorem canonical_name_counterexample:
  "cls_name (fst (from_powers [] [(''L'', - 1), (''T'', 1)])) = ''[T/L]''
   \<and> claimed_name (nonzero_powers [(''L'', - 1), (''T'', 1)]) = ''/L*T''"
  by code_simp

section \<open>The dispatcher on quantities\<close>

lemma parse_args_no_str:
  "\<forall>x \<in> set args. \<not> (\<exists>s. x = Str s) \<Longrightarrow> parse_args h units cache args = (Inr args, cache)"
  by (induction args) (auto split: obj.splits)

lemma dispatch_no_str:
  "\<forall>x \<in> set args. \<not> (\<exists>s. x = Str s) \<Longrightarrow>
     dispatch h units cache name op args = dispatch_core h cache name op args"
  by (simp add: dispatch_def parse_args_no_str)

lemma type_ne_Dim [simp]: "type_ne (Dim c) (Dim d) = (cls_id c \<noteq> cls_id d)"
  by (simp add: type_ne_def)

lemma type_of_Qty [simp]: "type_of h (Qty q) = Dim (q_type q)"
  by (simp add: type_of_def)

lemma type_of_Raw [simp]: "type_of h (Raw v) = Plain (h_type h v)"
  by (simp add: type_of_def)

lemma unwrap_Qty [simp]: "unwrap (Qty q) = Raw (q_value q)"
  by (simp add: unwrap_def)

lemma unwrap_Raw [simp]: "unwrap (Raw v) = Raw v"
  by (simp add: unwrap_def)

lemma unwrap_o_Qty [simp]: "unwrap \<circ> Qty = (\<lambda>q. Raw (q_value q))"
  by (simp add: fun_eq_iff)

lemma result_type_additive:
  assumes "name \<in> set [''add'', ''sub'', ''subtract'', ''hypot'']"
  shows "result_type h cache name [Qty a, Qty b] =
     (if cls_id (q_type b) \<noteq> cls_id (q_type a) then (Inl TypeError, cache)
      else (Inr (Some (Dim (q_type a), [Qty a, Qty b])), cache))"
  using assms by (auto simp: result_type_def arg_type_def)

text \<open>
  C4: an additive operation (\<open>add\<close>, \<open>sub\<close>, \<open>subtract\<close>, \<open>hypot\<close>) on two quantities raises
  \<open>TypeError\<close> when the type of the second is not the type of the first; when it is, the
  result is the host's result on the two payloads, wrapped in the type of the first operand
  (and the host's exception, should the host raise one).
\<close>

theorem additive_dispatch:
  assumes "name \<in> set [''add'', ''sub'', ''subtract'', ''hypot'']"
  shows "(cls_id (q_type b) \<noteq> cls_id (q_type a) \<longrightarrow>
            dispatch h units cache name op [Qty a, Qty b] = (Inl TypeError, cache))
       \<and> (cls_id (q_type b) = cls_id (q_type a) \<and> cls_powers (q_type a) \<noteq> [] \<longrightarrow>
            dispatch h units cache name op [Qty a, Qty b] =
              (case op [Raw (q_value a), Raw (q_value b)] of
                 Inl e \<Rightarrow> Inl e
               | Inr r \<Rightarrow> Inr (Qty \<lparr>q_type = q_type a, q_value = r, q_parsed_from = None\<rparr>),
               cache))"
  by (simp add: dispatch_no_str dispatch_core_def result_type_additive [OF assms] wrap_def
      split: sum.split)

theorem additive_dispatch_witness:
  "dispatch sym_host [] [] ''add'' (sym_op ''add'')
      [Qty (quantity_of Length (Lit ''1'')), Qty (quantity_of Time (Lit ''2''))]
     = (Inl TypeError, [])
   \<and> dispatch sym_host [] [] ''add'' (sym_op ''add'')
      [Qty (quantity_of Length (Lit ''1'')), Qty (quantity_of Length (Lit ''2''))]
     = (Inr (Qty (quantity_of Length (Apply ''add'' [Lit ''1'', Lit ''2'']))), [])"
proof -
  have n: "''add'' \<in> set [''add'', ''sub'', ''subtract'', ''hypot'']" by simp
  have a: "cls_id (q_type (quantity_of Time (Lit ''2''))) \<noteq> cls_id (q_type (quantity_of Length (Lit ''1'')))"
    by (simp add: quantity_of_def Length_def Time_def)
  have b: "cls_id (q_type (quantity_of Length (Lit ''2''))) = cls_id (q_type (quantity_of Length (Lit ''1'')))
      \<and> cls_powers (q_type (quantity_of Length (Lit ''1''))) \<noteq> []"
    by (simp add: quantity_of_def Length_def)
  show ?thesis
    using additive_dispatch [OF n, of "quantity_of Time (Lit ''2'')" "quantity_of Length (Lit ''1'')"
        sym_host "[]" "[]" "sym_op ''add''"]
      additive_dispatch [OF n, of "quantity_of Length (Lit ''2'')" "quantity_of Length (Lit ''1'')"
        sym_host "[]" "[]" "sym_op ''add''"] a b
    by (simp add: quantity_of_def sym_op_def)
qed

lemma canonical_name_Nil [simp]: "canonical_name [] = []"
  by (simp add: canonical_name_def sorted_reverse_def lstrip_def)

lemma nonzero_powers_Nil [simp]: "nonzero_powers [] = []"
  by (simp add: nonzero_powers_def)




section \<open>Parsing a dimensionless expression\<close>

text \<open>
  C8 fails on the code: \<open>parse\<close> ends with \<open>q._parsed_from = s\<close>, and when the fold has
  left a bare float in \<open>q\<close> this assignment raises \<open>AttributeError\<close>. So it is for the
  literal \<open>5\<close> in every registry, and for every expression whose units cancel.
\<close>

theorem parse_bare_number_fails:
  "parse h units cache ''5'' = (Inl AttributeError, cache)"
  by (simp add: parse_def lstrip_def py_float_or_1_def float_literal_ok_def is_digit_def
      digit_chars_def split_factors_def set_parsed_from_def)

lemma parse_raw_result_fails:
  assumes "py_float_or_1 h (take (length s - length (lstrip ''+-0123456789.'' s)) s) = Inr c"
    and "parse_loop h units cache (Raw c) (split_factors (lstrip ''+-0123456789.'' s))
           = (Inr (Raw r), cache')"
  shows "parse h units cache s = (Inl AttributeError, cache')"
  using assms by (simp add: parse_def Let_def set_parsed_from_def)

lemma parse_cancelling_units_fails:
  "fst (parse sym_host [(''m'', Qty (quantity_of Length (Lit ''1.'')))] [] ''2m/m'') = Inl AttributeError"
  by code_simp

section \<open>Displaying a quantity\<close>

text \<open>
  C9 fails on the code: with an empty format spec \<open>__format__\<close> returns \<open>repr(self)\<close>, which
  is the default \<open>object.__repr__\<close> with the address of the object, and never the string
  that \<open>__str__\<close> builds from the payload and the name of the class.
\<close>

theorem format_empty_spec_is_repr:
  "quantity_format (Suc fuel) h units modname addr cache
      \<lparr>q_type = \<lparr>cls_id = i, cls_name = ''['' @ n @ '']'', cls_powers = p\<rparr>,
       q_value = v, q_parsed_from = pf\<rparr> []
     = Some (Inr (''<'' @ modname @ ''.Quantity.['' @ n @ ''] object at ''
                  @ addr \<lparr>q_type = \<lparr>cls_id = i, cls_name = ''['' @ n @ '']'', cls_powers = p\<rparr>,
                          q_value = v, q_parsed_from = pf\<rparr> @ ''>''), cache)
   \<and> ''<'' @ modname @ ''.Quantity.['' @ n @ ''] object at ''
        @ addr \<lparr>q_type = \<lparr>cls_id = i, cls_name = ''['' @ n @ '']'', cls_powers = p\<rparr>,
                q_value = v, q_parsed_from = pf\<rparr> @ ''>''
      \<noteq> quantity_str h \<lparr>q_type = \<lparr>cls_id = i, cls_name = ''['' @ n @ '']'', cls_powers = p\<rparr>,
                q_value = v, q_parsed_from = pf\<rparr>"
proof -
  have "last (xs @ ''>'') \<noteq> last (ys @ ''['' @ n @ '']'')" for xs ys :: string
    by (simp add: last_append)
  then have "xs @ ''>'' \<noteq> ys @ ''['' @ n @ '']''" for xs ys :: string
    by metis
  from this [of "''<'' @ modname @ ''.Quantity.['' @ n @ ''] object at ''
        @ addr \<lparr>q_type = \<lparr>cls_id = i, cls_name = ''['' @ n @ '']'', cls_powers = p\<rparr>,
                q_value = v, q_parsed_from = pf\<rparr>" "h_str h v"]
  show ?thesis
    by (simp add: object_repr_def quantity_str_def)
qed

section \<open>Plain operands in the dimension algebra\<close>


section \<open>Auxiliary definitions, unfolded\<close>

lemma extends_iff:
  "extends c c' \<longleftrightarrow> (\<forall>n x. map_of c n = Some x \<longrightarrow> map_of c' n = Some x)"
proof
  assume e: "extends c c'"
  show "\<forall>n x. map_of c n = Some x \<longrightarrow> map_of c' n = Some x"
  proof (intro allI impI)
    fix n x
    assume m: "map_of c n = Some x"
    then have "(n, x) \<in> set c" by (rule map_of_SomeD)
    with e m show "map_of c' n = Some x" unfolding extends_def by fastforce
  qed
next
  assume "\<forall>n x. map_of c n = Some x \<longrightarrow> map_of c' n = Some x"
  then show "extends c c'" by (simp add: extends_def)
qed

lemma tok_shaped_iff:
  "tok_shaped t \<longleftrightarrow>
     (\<exists>c body. t = c # body \<and> is_sep c \<and> body \<noteq> [] \<and> (\<forall>x \<in> set body. \<not> is_sep x))"
  by (cases t) (simp_all add: tok_shaped_def)

section \<open>Decimal text\<close>

lemma digit_chars_nth: "n < 10 \<Longrightarrow> is_digit (digit_chars ! n)"
  unfolding is_digit_def by (rule nth_mem) (simp add: digit_chars_def)

lemma str_nat_nonempty: "str_nat n \<noteq> []"
  by (subst str_nat.simps) simp

lemma str_nat_digits: "c \<in> set (str_nat n) \<Longrightarrow> is_digit c"
proof (induction n rule: str_nat.induct)
  case (1 n)
  show ?case
  proof (cases "n < 10")
    case True
    with 1(2) digit_chars_nth [of n] show ?thesis
      by (simp add: str_nat.simps [of n])
  next
    case False
    have "n mod 10 < 10" by simp
    from digit_chars_nth [OF this] 1(1) [OF False] 1(2) False show ?thesis
      by (auto simp: str_nat.simps [of n])
  qed
qed

lemma digit_chars_inj: "m < 10 \<Longrightarrow> n < 10 \<Longrightarrow> digit_chars ! m = digit_chars ! n \<Longrightarrow> m = n"
proof -
  have d: "distinct digit_chars" by (simp add: digit_chars_def)
  have l: "length digit_chars = 10" by (simp add: digit_chars_def)
  show "m < 10 \<Longrightarrow> n < 10 \<Longrightarrow> digit_chars ! m = digit_chars ! n \<Longrightarrow> m = n"
    using d l by (simp add: nth_eq_iff_index_eq)
qed

lemma str_nat_inj: "str_nat m = str_nat n \<Longrightarrow> m = n"
proof (induction m arbitrary: n rule: str_nat.induct)
  case (1 m)
  show ?case
  proof (cases "m < 10")
    case m: True
    show ?thesis
    proof (cases "n < 10")
      case True
      with m 1(2) show ?thesis
        by (simp add: str_nat.simps [of m] str_nat.simps [of n] digit_chars_inj)
    next
      case False
      with m 1(2) str_nat_nonempty [of "n div 10"] show ?thesis
        by (simp add: str_nat.simps [of m] str_nat.simps [of n])
    qed
  next
    case m: False
    show ?thesis
    proof (cases "n < 10")
      case True
      with m 1(2) str_nat_nonempty [of "m div 10"] show ?thesis
        by (simp add: str_nat.simps [of m] str_nat.simps [of n])
    next
      case False
      with m 1(2) have e: "str_nat (m div 10) = str_nat (n div 10)"
        and d: "digit_chars ! (m mod 10) = digit_chars ! (n mod 10)"
        by (simp_all add: str_nat.simps [of m] str_nat.simps [of n])
      from 1(1) [OF m e] have "m div 10 = n div 10" .
      moreover from d have "m mod 10 = n mod 10"
        by (simp add: digit_chars_inj)
      ultimately show ?thesis
        by (metis div_mult_mod_eq)
    qed
  qed
qed

lemma str_int_nonneg: "0 \<le> i \<Longrightarrow> str_int i = str_nat (nat i)"
  by (simp add: str_int_def)

lemma str_int_abs_inj: "str_int \<bar>i\<bar> = str_int \<bar>j\<bar> \<Longrightarrow> \<bar>i\<bar> = \<bar>j\<bar>"
proof -
  assume "str_int \<bar>i\<bar> = str_int \<bar>j\<bar>"
  then have "str_nat (nat \<bar>i\<bar>) = str_nat (nat \<bar>j\<bar>)" by (simp add: str_int_nonneg)
  then have "nat \<bar>i\<bar> = nat \<bar>j\<bar>" by (rule str_nat_inj)
  then show ?thesis by simp
qed

lemma str_int_abs_digits: "c \<in> set (str_int \<bar>i\<bar>) \<Longrightarrow> is_digit c"
  using str_nat_digits by (simp add: str_int_nonneg)

lemma str_int_abs_nonempty: "str_int \<bar>i\<bar> \<noteq> []"
  using str_nat_nonempty by (simp add: str_int_nonneg)

section \<open>Tokens\<close>

lemma token_eq:
  "token (b, pw) = (if pw > 0 then CHR ''*'' else CHR ''/'') # b @ exponent_text pw"
  by (simp add: token_def exponent_text_def)

lemma underscore_not_digit: "\<not> is_digit (CHR ''_'')"
  by (simp add: is_digit_def digit_chars_def)

lemma in_exponent_chars: "c \<in> set ''0123456789_'' \<longleftrightarrow> is_digit c \<or> c = CHR ''_''"
  by (auto simp: is_digit_def digit_chars_def)

lemma exponent_text_chars: "c \<in> set (exponent_text pw) \<Longrightarrow> is_digit c \<or> c = CHR ''_''"
  unfolding exponent_text_def
  by (auto split: if_splits dest: str_int_abs_digits)

lemma split_at_underscore:
  assumes "CHR ''_'' \<notin> set a" "CHR ''_'' \<notin> set a'"
    and "b = [] \<or> hd b = CHR ''_''" "b' = [] \<or> hd b' = CHR ''_''"
    and "a @ b = a' @ b'"
  shows "a = a' \<and> b = b'"
proof -
  have t: "takeWhile (\<lambda>c. c \<noteq> CHR ''_'') (x @ y) = x"
    if "CHR ''_'' \<notin> set x" "y = [] \<or> hd y = CHR ''_''" for x y :: string
  proof (cases y)
    case Nil
    with that show ?thesis by (auto simp: takeWhile_eq_all_conv)
  next
    case (Cons c cs)
    with that have "c = CHR ''_''" by simp
    with Cons that(1) show ?thesis
      by (auto simp: takeWhile_tail takeWhile_eq_all_conv)
  qed
  have "a = takeWhile (\<lambda>c. c \<noteq> CHR ''_'') (a @ b)" using t [OF assms(1,3)] by simp
  also have "\<dots> = a'" using t [OF assms(2,4)] assms(5) by simp
  finally have "a = a'" .
  with assms(5) show ?thesis by simp
qed

lemma numerator_sign: "0 < numerator pw \<longleftrightarrow> 0 < pw"
proof -
  obtain n d where q: "quotient_of pw = (n, d)" by (cases "quotient_of pw")
  have d: "0 < d" using quotient_of_denom_pos [OF q] .
  have "pw = of_int n / of_int d" using quotient_of_div [OF q] .
  with d have "0 < pw \<longleftrightarrow> 0 < n" by (simp add: zero_less_divide_iff)
  with q show ?thesis by (simp add: numerator_def)
qed

lemma denominator_pos: "0 < denominator pw"
  by (simp add: denominator_def quotient_of_denom_pos')

lemma exponent_text_inj:
  assumes "pw \<noteq> 0" "pw' \<noteq> 0" "(0 < pw) = (0 < pw')"
    and "exponent_text pw = exponent_text pw'"
  shows "pw = pw'"
proof -
  define A where "A = (\<lambda>x. if \<bar>numerator x\<bar> \<noteq> 1 then str_int \<bar>numerator x\<bar> else [])"
  define B where
    "B = (\<lambda>x. if \<bar>denominator x\<bar> \<noteq> 1 then CHR ''_'' # str_int \<bar>denominator x\<bar> else [])"
  have a: "CHR ''_'' \<notin> set (A x)" for x
    using str_int_abs_digits [of "CHR ''_''" "numerator x"] underscore_not_digit
    by (auto simp: A_def split: if_splits)
  have b: "B x = [] \<or> hd (B x) = CHR ''_''" for x by (simp add: B_def)
  have ab: "exponent_text x = A x @ B x" for x
    unfolding exponent_text_def A_def B_def by simp
  have "A pw @ B pw = A pw' @ B pw'"
    using assms(4) by (simp only: ab)
  from split_at_underscore [OF a a b b this]
  have AA: "A pw = A pw'" and BB: "B pw = B pw'" by simp_all
  have n: "\<bar>numerator pw\<bar> = \<bar>numerator pw'\<bar>"
    using AA str_int_abs_nonempty [of "numerator pw"] str_int_abs_nonempty [of "numerator pw'"]
    by (auto simp: A_def split: if_splits dest: str_int_abs_inj)
  have d: "\<bar>denominator pw\<bar> = \<bar>denominator pw'\<bar>"
    using BB by (auto simp: B_def split: if_splits dest: str_int_abs_inj)
  have "numerator pw = numerator pw'"
  proof (cases "0 < pw")
    case True
    with assms(3) have "0 < numerator pw" "0 < numerator pw'" by (simp_all add: numerator_sign)
    with n show ?thesis by simp
  next
    case False
    with assms(3) have "\<not> 0 < numerator pw" "\<not> 0 < numerator pw'"
      by (simp_all add: numerator_sign)
    with n show ?thesis by linarith
  qed
  moreover have "denominator pw = denominator pw'"
    using d denominator_pos [of pw] denominator_pos [of pw'] by simp
  ultimately have "quotient_of pw = quotient_of pw'"
    by (simp add: numerator_def denominator_def prod_eq_iff)
  then show ?thesis by (rule quotient_of_inject)
qed

lemma strip_suffix:
  assumes "b \<noteq> []" "\<not> P (last b)" "\<forall>c \<in> set t. P c"
  shows "rev (dropWhile P (rev (b @ t))) = b"
proof -
  have "dropWhile P (rev t @ rev b) = dropWhile P (rev b)"
    using assms(3) by (intro dropWhile_append2) auto
  also have "\<dots> = rev b"
    using assms(1,2) by (simp add: dropWhile_eq_self_iff hd_rev)
  finally show ?thesis by simp
qed

lemma valid_symbol_last: "valid_symbol b \<Longrightarrow> \<not> (is_digit (last b) \<or> last b = CHR ''_'')"
  unfolding valid_symbol_def in_exponent_chars by simp

lemma token_inj:
  assumes "valid_symbol b" "valid_symbol b'" "pw \<noteq> 0" "pw' \<noteq> 0"
    and "token (b, pw) = token (b', pw')"
  shows "b = b' \<and> pw = pw'"
proof -
  define P where "P = (\<lambda>c. is_digit c \<or> c = CHR ''_'')"
  have t: "\<forall>c \<in> set (exponent_text x). P c" for x
    using exponent_text_chars [of _ x] by (auto simp: P_def)
  have l: "\<not> P (last b)" "\<not> P (last b')" "b \<noteq> []" "b' \<noteq> []"
    using assms(1,2) valid_symbol_last by (auto simp: P_def valid_symbol_def)
  from assms(5) have s: "(0 < pw) = (0 < pw')"
    and e: "b @ exponent_text pw = b' @ exponent_text pw'"
    by (auto simp: token_eq split: if_splits)
  have "b = rev (dropWhile P (rev (b @ exponent_text pw)))"
    using strip_suffix [OF l(3) l(1) t] by simp
  also have "\<dots> = rev (dropWhile P (rev (b' @ exponent_text pw')))"
    using e by simp
  also have "\<dots> = b'"
    using strip_suffix [OF l(4) l(2) t] by simp
  finally have b: "b = b'" .
  with e have "exponent_text pw = exponent_text pw'" by simp
  from exponent_text_inj [OF assms(3,4) s this] b show ?thesis by simp
qed

section \<open>The canonical name determines the powers\<close>

lemma digit_not_sep: "is_digit c \<Longrightarrow> \<not> is_sep c"
  by (auto simp: is_digit_def digit_chars_def is_sep_def)

lemma token_shaped:
  assumes "valid_symbol b"
  shows "tok_shaped (token (b, pw))"
proof -
  have "\<not> is_sep x" if "x \<in> set (b @ exponent_text pw)" for x
  proof -
    from that consider "x \<in> set b" | "x \<in> set (exponent_text pw)" by auto
    then show ?thesis
    proof cases
      case 1
      with assms show ?thesis by (auto simp: valid_symbol_def is_sep_def)
    next
      case 2
      from exponent_text_chars [OF this] show ?thesis
        by (auto simp: digit_not_sep) (simp add: is_sep_def)
    qed
  qed
  moreover have "b @ exponent_text pw \<noteq> []" using assms by (simp add: valid_symbol_def)
  ultimately show ?thesis
    unfolding tok_shaped_iff token_eq by (auto simp: is_sep_def)
qed

lemma concat_shaped_hd:
  assumes "\<forall>t \<in> set ts. tok_shaped t"
  shows "concat ts = [] \<or> is_sep (hd (concat ts))"
proof (cases ts)
  case Nil
  then show ?thesis by simp
next
  case (Cons t ts')
  with assms obtain c body where "t = c # body" "is_sep c" by (auto simp: tok_shaped_iff)
  with Cons show ?thesis by simp
qed

lemma take_body:
  assumes "\<forall>x \<in> set body. \<not> is_sep x" and "rest = [] \<or> is_sep (hd rest)"
  shows "takeWhile (\<lambda>x. \<not> is_sep x) (body @ rest) = body"
proof (cases rest)
  case Nil
  with assms(1) show ?thesis by (simp add: takeWhile_eq_all_conv)
next
  case (Cons r rs)
  with assms(2) have "is_sep r" by simp
  with Cons assms(1) show ?thesis
    by (simp add: takeWhile_tail takeWhile_eq_all_conv)
qed

lemma concat_shaped_inj:
  assumes "\<forall>t \<in> set ts. tok_shaped t" "\<forall>t \<in> set us. tok_shaped t"
    and "concat ts = concat us"
  shows "ts = us"
  using assms
proof (induction ts arbitrary: us)
  case Nil
  show ?case
  proof (cases us)
    case Nil
    then show ?thesis by simp
  next
    case (Cons u us')
    with Nil.prems(2) have "u \<noteq> []" by (auto simp: tok_shaped_iff)
    with Cons Nil.prems(3) show ?thesis by simp
  qed
next
  case (Cons t ts)
  from Cons.prems(1) obtain c bt where t: "t = c # bt" "\<forall>x \<in> set bt. \<not> is_sep x"
    by (auto simp: tok_shaped_iff)
  show ?case
  proof (cases us)
    case Nil
    with Cons.prems(3) t show ?thesis by simp
  next
    case us: (Cons u us')
    from Cons.prems(2) us obtain d bu where u: "u = d # bu" "\<forall>x \<in> set bu. \<not> is_sep x"
      by (auto simp: tok_shaped_iff)
    from Cons.prems(3) us t u have cd: "c = d" and e: "bt @ concat ts = bu @ concat us'"
      by simp_all
    have hx: "concat ts = [] \<or> is_sep (hd (concat ts))"
      using Cons.prems(1) by (intro concat_shaped_hd) simp
    have hy: "concat us' = [] \<or> is_sep (hd (concat us'))"
      using Cons.prems(2) us by (intro concat_shaped_hd) simp
    have "bt = takeWhile (\<lambda>x. \<not> is_sep x) (bt @ concat ts)"
      using take_body [OF t(2) hx] by simp
    also have "\<dots> = bu"
      unfolding e using take_body [OF u(2) hy] by simp
    finally have b: "bt = bu" .
    with e have "concat ts = concat us'" by simp
    with Cons.IH [of us'] Cons.prems(1,2) us have "ts = us'" by simp
    with b cd t u us show ?thesis by simp
  qed
qed

lemma lstrip_shaped_inj:
  assumes "\<forall>t \<in> set ts. tok_shaped t" "\<forall>t \<in> set us. tok_shaped t"
    and "lstrip ''*'' (concat ts) = lstrip ''*'' (concat us)"
  shows "concat ts = concat us"
proof -
  define unstrip where
    "unstrip = (\<lambda>s. if s = [] then [] else if hd s = CHR ''/'' then s else CHR ''*'' # s)"
  have u: "unstrip (lstrip ''*'' (concat xs)) = concat xs" if "\<forall>t \<in> set xs. tok_shaped t" for xs
  proof (cases xs)
    case Nil
    then show ?thesis by (simp add: unstrip_def lstrip_def)
  next
    case (Cons t xs')
    with that obtain c body where t: "t = c # body" "is_sep c" "body \<noteq> []"
      "\<forall>x \<in> set body. \<not> is_sep x"
      by (auto simp: tok_shaped_iff)
    then have hb: "\<not> is_sep (hd body)" by (cases body) auto
    show ?thesis
    proof (cases "c = CHR ''*''")
      case True
      have "lstrip ''*'' (concat xs) = body @ concat xs'"
        using True Cons t hb by (cases body) (auto simp: lstrip_def is_sep_def)
      moreover have "hd (body @ concat xs') \<noteq> CHR ''/''"
        using t(3) hb by (cases body) (auto simp: is_sep_def)
      ultimately show ?thesis
        using True Cons t by (simp add: unstrip_def)
    next
      case False
      with t(2) have c: "c = CHR ''/''" by (simp add: is_sep_def)
      then show ?thesis
        using Cons t by (simp add: unstrip_def lstrip_def)
    qed
  qed
  have "concat ts = unstrip (lstrip ''*'' (concat ts))" using u [OF assms(1)] by simp
  also have "\<dots> = concat us" using assms(3) u [OF assms(2)] by simp
  finally show ?thesis .
qed




lemma canonical_name_inj:
  assumes "valid_powers p" "valid_powers q" "nonzero p" "nonzero q"
    and "canonical_name p = canonical_name q"
  shows "set p = set q"
proof -
  define k where "k = (\<lambda>item :: string \<times> rat. (snd item, fst item))"
  let ?L = "sorted_reverse k p" and ?M = "sorted_reverse k q"
  have v: "\<forall>item \<in> set p \<union> set q. valid_symbol (fst item) \<and> snd item \<noteq> 0"
    using assms(1-4) by (auto simp: valid_powers_def nonzero_def)
  have sh: "\<forall>t \<in> set (map token ?L). tok_shaped t" "\<forall>t \<in> set (map token ?M). tok_shaped t"
    using v token_shaped by fastforce+
  have "lstrip ''*'' (concat (map token ?L)) = lstrip ''*'' (concat (map token ?M))"
    using assms(5) by (simp add: canonical_name_def k_def)
  from lstrip_shaped_inj [OF sh this] have "concat (map token ?L) = concat (map token ?M)" .
  from concat_shaped_inj [OF sh this] have m: "map token ?L = map token ?M" .
  have "inj_on token (set ?L \<union> set ?M)"
  proof (rule inj_onI)
    fix x y assume "x \<in> set ?L \<union> set ?M" "y \<in> set ?L \<union> set ?M" "token x = token y"
    with v token_inj [of "fst x" "fst y" "snd x" "snd y"] show "x = y"
      by (auto simp: prod_eq_iff)
  qed
  with m have "?L = ?M" by (simp add: inj_on_map_eq_map)
  then have "set ?L = set ?M" by simp
  then show ?thesis by simp
qed

section \<open>The registry built from valid symbols\<close>

lemma registry_ok_Nil: "registry_ok []"
  by (simp add: registry_ok_def)

lemma valid_nonzero_powers: "valid_powers arg \<Longrightarrow> valid_powers (nonzero_powers arg)"
  by (auto simp: valid_powers_def nonzero_powers_def is_dict_def distinct_map_filter)

lemma nonzero_nonzero_powers: "nonzero (nonzero_powers arg)"
  by (auto simp: nonzero_def nonzero_powers_def)

lemma dict_get_nonzero_powers:
  assumes "is_dict arg"
  shows "dict_get (nonzero_powers arg) b = dict_get arg b"
proof -
  have d: "distinct (map fst arg)" "distinct (map fst (nonzero_powers arg))"
    using assms by (simp_all add: is_dict_def nonzero_powers_def distinct_map_filter)
  show ?thesis
  proof (cases "map_of arg b")
    case None
    then have "b \<notin> fst ` set arg" by (simp add: map_of_eq_None_iff)
    then have "b \<notin> fst ` set (nonzero_powers arg)" by (auto simp: nonzero_powers_def)
    then have "map_of (nonzero_powers arg) b = None" by (simp add: map_of_eq_None_iff)
    with None show ?thesis by (simp add: dict_get_def)
  next
    case (Some pw)
    with d(1) have m: "(b, pw) \<in> set arg" by simp
    show ?thesis
    proof (cases "pw = 0")
      case True
      have "map_of (nonzero_powers arg) b = None"
      proof (rule ccontr)
        assume "map_of (nonzero_powers arg) b \<noteq> None"
        then obtain pw' where "map_of (nonzero_powers arg) b = Some pw'" by auto
        with d(2) have "(b, pw') \<in> set (nonzero_powers arg)" by simp
        then have "(b, pw') \<in> set arg" "pw' \<noteq> 0" by (auto simp: nonzero_powers_def)
        with d(1) Some have "pw' = pw" by simp
        with True \<open>pw' \<noteq> 0\<close> show False by simp
      qed
      with Some True show ?thesis by (simp add: dict_get_def)
    next
      case False
      with m have "(b, pw) \<in> set (nonzero_powers arg)" by (simp add: nonzero_powers_def)
      with d(2) have "map_of (nonzero_powers arg) b = Some pw" by simp
      with Some show ?thesis by (simp add: dict_get_def)
    qed
  qed
qed

lemma dict_get_set_cong:
  assumes "is_dict p" "is_dict q" "set p = set q"
  shows "dict_get p b = dict_get q b"
proof -
  have "map_of p = map_of q"
    using assms by (simp add: is_dict_def map_of_inject_set)
  then show ?thesis by (simp add: dict_get_def)
qed

lemma registry_lookup:
  assumes "registry_ok cache" "map_of cache n = Some cls"
  shows "n = canonical_name (cls_powers cls)" "valid_powers (cls_powers cls)"
    "nonzero (cls_powers cls)" "cls_id cls < length cache"
  using assms map_of_SomeD [OF assms(2)] by (auto simp: registry_ok_def)

text \<open>What \<open>from_powers\<close> returns in such a registry, and what it leaves behind.\<close>

lemma from_powers_ok:
  assumes "registry_ok cache" "valid_powers arg" "from_powers cache arg = (d, cache')"
  shows "registry_ok cache'"
    and "set (cls_powers d) = set (nonzero_powers arg)"
    and "valid_powers (cls_powers d)" and "nonzero (cls_powers d)"
    and "map_of cache' (canonical_name (nonzero_powers arg)) = Some d"
    and "\<And>n x. map_of cache n = Some x \<Longrightarrow> map_of cache' n = Some x"
    and "length cache \<le> length cache'"
proof -
  define name where "name = canonical_name (nonzero_powers arg)"
  have va: "valid_powers (nonzero_powers arg)" "nonzero (nonzero_powers arg)"
    using assms(2) by (simp_all add: valid_nonzero_powers nonzero_nonzero_powers)
  have all: "registry_ok cache' \<and> set (cls_powers d) = set (nonzero_powers arg)
      \<and> valid_powers (cls_powers d) \<and> nonzero (cls_powers d)
      \<and> map_of cache' name = Some d
      \<and> (\<forall>n x. map_of cache n = Some x \<longrightarrow> map_of cache' n = Some x)
      \<and> length cache \<le> length cache'"
  proof (cases "map_of cache name")
    case (Some cls)
    with assms(3) have e: "d = cls" "cache' = cache"
      by (simp_all add: from_powers_def Let_def name_def)
    from registry_lookup [OF assms(1) Some]
    have r: "name = canonical_name (cls_powers cls)" "valid_powers (cls_powers cls)"
      "nonzero (cls_powers cls)" by simp_all
    have "set (cls_powers cls) = set (nonzero_powers arg)"
      using r(1) by (intro canonical_name_inj r va) (simp add: name_def)
    with e r Some assms(1) show ?thesis by simp
  next
    case None
    define cls where "cls = \<lparr>cls_id = length cache, cls_name = ''['' @ name @ '']'',
        cls_powers = nonzero_powers arg\<rparr>"
    have u: "AList.update name cls cache = cache @ [(name, cls)]"
      using None by (induction cache) (auto split: if_splits)
    from None assms(3) have "d = cls \<and> cache' = AList.update name cls cache"
      by (auto simp: from_powers_def Let_def name_def cls_def)
    then have e: "d = cls" "cache' = cache @ [(name, cls)]"
      by (simp_all add: u)
    have old: "cls_id (snd e) < length cache" "fst e = canonical_name (cls_powers (snd e))"
      "valid_powers (cls_powers (snd e))" "nonzero (cls_powers (snd e))"
      if "e \<in> set cache" for e
      using assms(1) that by (simp_all add: registry_ok_def)
    have uniq: "fst e = fst e'"
      if "e \<in> set cache" "e' \<in> set cache" "cls_id (snd e) = cls_id (snd e')" for e e'
      using assms(1) that unfolding registry_ok_def by blast
    have c: "cls_id cls = length cache" "cls_powers cls = nonzero_powers arg"
      by (simp_all add: cls_def)
    have ok: "registry_ok (cache @ [(name, cls)])"
      unfolding registry_ok_def
    proof (intro conjI ballI impI)
      fix e assume "e \<in> set (cache @ [(name, cls)])"
      then consider "e \<in> set cache" | "e = (name, cls)" by auto
      then show "cls_id (snd e) < length (cache @ [(name, cls)])"
        using old(1) c(1) by cases fastforce+
    next
      fix e assume "e \<in> set (cache @ [(name, cls)])"
      then consider "e \<in> set cache" | "e = (name, cls)" by auto
      then show "fst e = canonical_name (cls_powers (snd e))"
        using old(2) c(2) by cases (simp_all add: name_def)
    next
      fix e assume "e \<in> set (cache @ [(name, cls)])"
      then consider "e \<in> set cache" | "e = (name, cls)" by auto
      then show "valid_powers (cls_powers (snd e))"
        using old(3) c(2) va(1) by cases simp_all
    next
      fix e assume "e \<in> set (cache @ [(name, cls)])"
      then consider "e \<in> set cache" | "e = (name, cls)" by auto
      then show "nonzero (cls_powers (snd e))"
        using old(4) c(2) va(2) by cases simp_all
    next
      fix e e' assume "e \<in> set (cache @ [(name, cls)])" "e' \<in> set (cache @ [(name, cls)])"
        and i: "cls_id (snd e) = cls_id (snd e')"
      then consider "e \<in> set cache" "e' \<in> set cache" | "e \<in> set cache" "e' = (name, cls)"
        | "e = (name, cls)" "e' \<in> set cache" | "e = (name, cls)" "e' = (name, cls)" by auto
      then show "fst e = fst e'"
      proof cases
        case 1
        with i uniq [of e e'] show ?thesis by simp
      next
        case 2
        with old(1) [of e] c(1) i show ?thesis by simp
      next
        case 3
        with old(1) [of e'] c(1) i show ?thesis by simp
      next
        case 4
        then show ?thesis by simp
      qed
    qed
    have keep: "map_of (cache @ [(name, cls)]) n = Some x" if "map_of cache n = Some x" for n x
      using that by (simp add: map_add_def)
    have new: "map_of (cache @ [(name, cls)]) name = Some cls"
      using None by (simp add: map_add_def)
    show ?thesis
      using ok keep new va by (simp add: e) (simp add: cls_def)
  qed
  then show "registry_ok cache'" "set (cls_powers d) = set (nonzero_powers arg)"
    "valid_powers (cls_powers d)" "nonzero (cls_powers d)"
    "map_of cache' (canonical_name (nonzero_powers arg)) = Some d"
    "\<And>n x. map_of cache n = Some x \<Longrightarrow> map_of cache' n = Some x"
    "length cache \<le> length cache'"
    by (simp_all add: name_def)
qed

lemma from_powers_dict_get:
  assumes "registry_ok cache" "valid_powers arg"
  shows "dict_get (cls_powers (fst (from_powers cache arg))) b = dict_get arg b"
proof -
  obtain d cache' where f: "from_powers cache arg = (d, cache')" by (cases "from_powers cache arg")
  have "dict_get (cls_powers d) b = dict_get (nonzero_powers arg) b"
    using from_powers_ok(2,3) [OF assms f] valid_nonzero_powers [OF assms(2)]
    by (intro dict_get_set_cong) (simp_all add: valid_powers_def)
  also have "\<dots> = dict_get arg b"
    using assms(2) by (simp add: dict_get_nonzero_powers valid_powers_def)
  finally show ?thesis by (simp add: f)
qed

lemma example_cache_built:
  "create [] ''T'' = (Inr Time, [(''T'', Time)])"
  "create [(''T'', Time)] ''L'' = (Inr Length, [(''T'', Time), (''L'', Length)])"
  "binop [(''T'', Time), (''L'', Length)] (-) (cls_powers Length) (cls_powers Length)
     = (Dimensionless, example_cache)"
  by code_simp+


lemma si_registry_ok: "registry_ok (snd (run_dim_statements [] [] si_dimension_statements))"
  by code_simp




section \<open>The registry as a bijection\<close>




section \<open>What Dimension.create admits\<close>

lemma split_on_nonempty: "split_on c s \<noteq> []"
  by (induction s) (auto split: list.splits)

lemma split_on_absent: "c \<notin> set s \<Longrightarrow> split_on c s = [s]"
  by (induction s) auto

lemma split_on_length: "p \<in> set (split_on c s) \<Longrightarrow> length p \<le> length s"
proof (induction s arbitrary: p)
  case Nil
  then show ?case by simp
next
  case (Cons x xs)
  show ?case
  proof (cases "x = c")
    case True
    with Cons show ?thesis by (auto simp: le_Suc_eq)
  next
    case False
    from split_on_nonempty [of c xs] obtain q qs where s: "split_on c xs = q # qs"
      by (cases "split_on c xs") auto
    with False Cons.prems have "p = x # q \<or> p \<in> set qs" by simp
    then show ?thesis
    proof
      assume "p = x # q"
      with Cons.IH [of q] s show ?thesis by simp
    next
      assume "p \<in> set qs"
      with Cons.IH [of p] s show ?thesis by simp
    qed
  qed
qed

lemma split_on_present: "c \<in> set s \<Longrightarrow> p \<in> set (split_on c s) \<Longrightarrow> length p < length s"
proof (induction s arbitrary: p)
  case Nil
  then show ?case by simp
next
  case (Cons x xs)
  show ?case
  proof (cases "x = c")
    case True
    with Cons.prems(2) have "p = [] \<or> p \<in> set (split_on c xs)" by simp
    then show ?thesis
    proof
      assume "p = []" then show ?thesis by simp
    next
      assume "p \<in> set (split_on c xs)"
      from split_on_length [OF this] show ?thesis by simp
    qed
  next
    case False
    with Cons.prems(1) have in_xs: "c \<in> set xs" by simp
    from split_on_nonempty [of c xs] obtain q qs where s: "split_on c xs = q # qs"
      by (cases "split_on c xs") auto
    with False Cons.prems(2) have "p = x # q \<or> p \<in> set qs" by simp
    then show ?thesis
    proof
      assume "p = x # q"
      with Cons.IH [OF in_xs, of q] s show ?thesis by simp
    next
      assume "p \<in> set qs"
      with Cons.IH [OF in_xs, of p] s show ?thesis by simp
    qed
  qed
qed

lemma rstrip_length: "length (rstrip chars s) \<le> length s"
  by (simp add: rstrip_def length_dropWhile_le [of _ "rev s", simplified])

lemma factor_of_base:
  "factor_of f = Inr (base, pw) \<Longrightarrow> base = rstrip ''0123456789_'' f"
  by (auto simp: factor_of_def Let_def split: prod.splits sum.splits if_splits)

lemma factors_of_parts_base:
  assumes "Inr (base, pw, isnumer) \<in> set (factors_of_parts n parts)"
  shows "\<exists>f \<in> set parts. f \<noteq> [] \<and> base = rstrip ''0123456789_'' f"
  using assms
proof (induction parts arbitrary: n)
  case Nil
  then show ?case by simp
next
  case (Cons f rest)
  from Cons.prems
  consider "f \<noteq> []" "(case factor_of f of Inl e \<Rightarrow> Inl e | Inr (b, p) \<Rightarrow> Inr (b, p, n)) = Inr (base, pw, isnumer)"
    | "Inr (base, pw, isnumer) \<in> set (factors_of_parts False rest)"
    by (auto split: if_splits)
  then show ?case
  proof cases
    case 1
    then have "\<exists>p. factor_of f = Inr (base, p)" by (auto split: sum.splits prod.splits)
    with 1(1) factor_of_base show ?thesis by auto
  next
    case 2
    from Cons.IH [OF this] show ?thesis by auto
  qed
qed

lemma split_factors_base:
  assumes "Inr (base, pw, isnumer) \<in> set (split_factors s)"
  shows "\<exists>part \<in> set (split_on CHR ''*'' s). \<exists>f \<in> set (split_on CHR ''/'' part).
           f \<noteq> [] \<and> base = rstrip ''0123456789_'' f"
  using assms factors_of_parts_base unfolding split_factors_def by fastforce

lemma rstrip_self:
  assumes "rstrip chars s = s" "s \<noteq> []"
  shows "last s \<notin> set chars"
proof -
  from assms(1) have "dropWhile (\<lambda>c. c \<in> set chars) (rev s) = rev s"
    by (simp add: rstrip_def rev_swap)
  with assms(2) show ?thesis
    by (simp add: dropWhile_eq_self_iff hd_rev)
qed

lemma yielded_symbol_valid:
  assumes "Inr (s, pw, isnumer) \<in> set (split_factors s)"
  shows "valid_symbol s"
proof -
  from split_factors_base [OF assms] obtain part f
    where p: "part \<in> set (split_on CHR ''*'' s)" and f: "f \<in> set (split_on CHR ''/'' part)"
      and ne: "f \<noteq> []" and b: "s = rstrip ''0123456789_'' f" by auto
  have l1: "length s \<le> length f" using b rstrip_length [of "''0123456789_''" f] by simp
  have l2: "length f \<le> length part" using f by (rule split_on_length)
  have l3: "length part \<le> length s" using p by (rule split_on_length)
  have star: "CHR ''*'' \<notin> set s"
  proof
    assume "CHR ''*'' \<in> set s"
    from split_on_present [OF this p] l1 l2 show False by simp
  qed
  then have part: "part = s" using p by (simp add: split_on_absent)
  have slash: "CHR ''/'' \<notin> set s"
  proof
    assume "CHR ''/'' \<in> set s"
    with part have "CHR ''/'' \<in> set part" by simp
    from split_on_present [OF this f] l1 part show False by simp
  qed
  then have fs: "f = s" using f part by (simp add: split_on_absent)
  with b ne have "last s \<notin> set ''0123456789_''"
    by (intro rstrip_self) simp_all
  with star slash ne fs show ?thesis
    by (simp add: valid_symbol_def)
qed

lemma create_valid:
  assumes "create cache s = (Inr d, cache')"
  shows "valid_symbol s" and "from_powers cache [(s, 1)] = (d, cache')"
proof -
  from assms obtain pw isnumer rest where "split_factors s = Inr (s, pw, isnumer) # rest"
    and fp: "from_powers cache [(s, 1)] = (d, cache')"
    by (auto simp: create_def split: list.splits sum.splits prod.splits if_splits)
  then have "Inr (s, pw, isnumer) \<in> set (split_factors s)" by simp
  then show "valid_symbol s" by (rule yielded_symbol_valid)
  show "from_powers cache [(s, 1)] = (d, cache')" by (rule fp)
qed

lemma create_registry_ok:
  assumes "registry_ok cache" "create cache s = (Inr d, cache')"
  shows "registry_ok cache'"
proof -
  have "valid_powers [(s, 1)]"
    using create_valid(1) [OF assms(2)] by (simp add: valid_powers_def is_dict_def)
  from from_powers_ok(1) [OF assms(1) this create_valid(2) [OF assms(2)]] show ?thesis .
qed

section \<open>Products and quotients of classes\<close>

lemma binop_arg_valid:
  assumes "valid_powers a" "valid_powers b"
  shows "valid_powers (map (\<lambda>base. (base, op (dict_get a base) (dict_get b base)))
            (remdups (map fst a @ map fst b)))"
  using assms by (auto simp: valid_powers_def is_dict_def comp_def)

lemma dict_get_keys:
  "dict_get (map (\<lambda>base. (base, f base)) ks) b = (if b \<in> set ks then f b else 0)"
  by (induction ks) (auto simp: dict_get_def)

lemma dict_get_absent: "b \<notin> fst ` set a \<Longrightarrow> dict_get a b = 0"
  by (simp add: dict_get_def map_of_eq_None_iff [THEN iffD2])

lemma binop_powers:
  assumes "registry_ok cache" "valid_powers a" "valid_powers b" "op 0 0 = 0"
  shows "dict_get (cls_powers (fst (binop cache op a b))) base
           = op (dict_get a base) (dict_get b base)"
    and "registry_ok (snd (binop cache op a b))"
    and "extends cache (snd (binop cache op a b))"
proof -
  let ?arg = "map (\<lambda>base. (base, op (dict_get a base) (dict_get b base)))
            (remdups (map fst a @ map fst b))"
  have v: "valid_powers ?arg" using assms(2,3) by (rule binop_arg_valid)
  obtain d c where f: "from_powers cache ?arg = (d, c)" by (cases "from_powers cache ?arg")
  have "dict_get ?arg base = op (dict_get a base) (dict_get b base)"
  proof (cases "base \<in> set (remdups (map fst a @ map fst b))")
    case True
    then show ?thesis by (simp only: dict_get_keys if_True)
  next
    case False
    then have "base \<notin> fst ` set a" "base \<notin> fst ` set b" by auto
    then have "dict_get a base = 0" "dict_get b base = 0" by (simp_all add: dict_get_absent)
    with False assms(4) show ?thesis by (simp only: dict_get_keys if_False)
  qed
  then show "dict_get (cls_powers (fst (binop cache op a b))) base
           = op (dict_get a base) (dict_get b base)"
    using from_powers_dict_get [OF assms(1) v, of base] by (simp add: binop_def)
  show "registry_ok (snd (binop cache op a b))"
    using from_powers_ok(1) [OF assms(1) v f] by (simp add: binop_def f)
  show "extends cache (snd (binop cache op a b))"
    using from_powers_ok(6) [OF assms(1) v f] by (simp add: binop_def f extends_iff)
qed

section \<open>Powers of a class\<close>





section \<open>Inverting a class\<close>




section \<open>Comparisons in a registry of valid symbols\<close>




end
